theory Spec2Isabelle
  imports Complex_Main "HOL-Library.Char_ord" "HOL-Library.List_Lexorder"
begin

section \<open>JavaScript strings and numbers\<close>

text \<open>
  A \<^typ>\<open>char\<close> stands for one UTF-16 code unit below 256, and \<^typ>\<open>string\<close> for a
  JavaScript string of such units; the order on strings is the lexicographic order by
  code unit, which is the order in which the store keeps its keys.

  A JavaScript number is the rational that its decimal numeral denotes (\<^typ>\<open>rat\<close>): the
  numeral \<open>String\<close> prints for a double is the shortest one that reads back as that double,
  and it lies on the same side of every integer as the double does. A number that is
  always a reading of \<open>Date.now()\<close>, or a count, is an integer (\<^typ>\<open>int\<close>, \<^typ>\<open>nat\<close>).
  Rounding in additions, \<open>NaN\<close> as an argument and numbers of 21 digits and more (printed
  with an exponent) are outside the model.
\<close>

definition digit :: "nat \<Rightarrow> char" where
  "digit d = char_of (48 + d)"

definition isDigit :: "char \<Rightarrow> bool" where
  "isDigit c \<longleftrightarrow> CHR ''0'' \<le> c \<and> c \<le> CHR ''9''"

definition digitValue :: "char \<Rightarrow> nat" where
  "digitValue c = of_char c - 48"

text \<open>\<open>\s\<close> of a regular expression and the white space \<open>parseInt\<close> skips: TAB, LF, VT,
  FF, CR, SP and NBSP are the members below 256.\<close>

definition isWhiteSpace :: "char \<Rightarrow> bool" where
  "isWhiteSpace c \<longleftrightarrow> c \<in> set [CHR 0x09, CHR 0x0A, CHR 0x0B, CHR 0x0C, CHR 0x0D, CHR 0x20, CHR 0xA0]"

text \<open>\<open>String(x)\<close>: a minus sign for a negative number, the decimal digits of the integer
  part, most significant first, and, when the number is not an integer, a point and the
  digits of the fraction (a double's numeral has at most 17 significant digits; the model
  stops after 20 digits of the fraction).\<close>

fun dec :: "nat \<Rightarrow> string" where
  "dec n = (if n < 10 then [digit n] else dec (n div 10) @ [digit (n mod 10)])"

declare dec.simps [simp del]

fun fractionDigits :: "nat \<Rightarrow> rat \<Rightarrow> string" where
  "fractionDigits 0 r = []"
| "fractionDigits (Suc n) r =
     (if r = 0 then []
      else digit (nat \<lfloor>10 * r\<rfloor>) # fractionDigits n (10 * r - of_int \<lfloor>10 * r\<rfloor>))"

definition js_String :: "rat \<Rightarrow> string" where
  "js_String x =
     (let a = \<bar>x\<bar>; whole = \<lfloor>a\<rfloor>; fraction = a - of_int whole
      in (if x < 0 then ''-'' else []) @ dec (nat whole) @
         (if fraction = 0 then [] else CHR ''.'' # fractionDigits 20 fraction))"

text \<open>\<open>s.padStart(w, c)\<close> with a one-character filler.\<close>

definition padStart :: "nat \<Rightarrow> char \<Rightarrow> string \<Rightarrow> string" where
  "padStart w c s = replicate (w - length s) c @ s"

text \<open>\<open>parseInt(s, 10)\<close>: skip white space, read an optional sign, then the longest run
  of decimal digits; the result is \<open>NaN\<close> (here \<open>None\<close>) when there is no digit.\<close>

definition digitsValue :: "string \<Rightarrow> nat" where
  "digitsValue ds = foldl (\<lambda>acc c. 10 * acc + digitValue c) 0 ds"

definition parseInt :: "string \<Rightarrow> int option" where
  "parseInt s =
     (let s1 = dropWhile isWhiteSpace s;
          neg = (s1 \<noteq> [] \<and> hd s1 = CHR ''-'');
          s2 = (if s1 \<noteq> [] \<and> (hd s1 = CHR ''-'' \<or> hd s1 = CHR ''+'') then tl s1 else s1);
          ds = takeWhile isDigit s2
      in if ds = [] then None
         else Some (if neg then - int (digitsValue ds) else int (digitsValue ds)))"

text \<open>\<open>x > y\<close> where \<open>x\<close> may be \<open>NaN\<close>: every comparison with \<open>NaN\<close> is false.\<close>

definition js_gt :: "int option \<Rightarrow> int \<Rightarrow> bool" where
  "js_gt x y = (case x of None \<Rightarrow> False | Some v \<Rightarrow> v > y)"

text \<open>\<open>toLowerCase\<close> on code units below 256: \<open>A\<close>..\<open>Z\<close> and the accented capitals
  \<open>0xC0\<close>..\<open>0xDE\<close> (but not the multiplication sign \<open>0xD7\<close>) move up by 32.\<close>

definition toLowerChar :: "char \<Rightarrow> char" where
  "toLowerChar c =
     (let n = (of_char c :: nat)
      in if (65 \<le> n \<and> n \<le> 90) \<or> (192 \<le> n \<and> n \<le> 222 \<and> n \<noteq> 215) then char_of (n + 32) else c)"

definition toLowerCase :: "string \<Rightarrow> string" where
  "toLowerCase s = map toLowerChar s"

text \<open>\<open>s.replace(/\s+/g, "-")\<close>: every maximal run of white space becomes one hyphen.\<close>

function replaceWhiteSpace :: "string \<Rightarrow> string" where
  "replaceWhiteSpace [] = []"
| "replaceWhiteSpace (c # cs) =
     (if isWhiteSpace c then CHR ''-'' # replaceWhiteSpace (dropWhile isWhiteSpace cs)
      else c # replaceWhiteSpace cs)"
  by pat_completeness auto
termination
  by (relation "measure length") (auto simp: length_dropWhile_le less_Suc_eq_le)

section \<open>Values and records of \<open>lib/types.ts\<close>\<close>

text \<open>A value of type \<open>unknown\<close> in a body is a JSON value.\<close>

datatype json = JNull | JBool bool | JNum rat | JStr string
  | JArr "json list" | JObj "(string \<times> json) list"

datatype JobStatus = Queued | Processing | Completed | Failed

text \<open>\<open>ResearchJob\<close>; the fields \<open>id\<close>, \<open>name\<close> and \<open>body\<close> carry the prefix \<open>job_\<close>.\<close>

record ResearchJob =
  job_id :: string
  job_name :: string
  createdAt :: int
  availableForProcessingAt :: rat
  retryCount :: nat
  status :: JobStatus
  job_body :: "(string \<times> json) list"

definition toJobId :: "string \<Rightarrow> string" where
  "toJobId name = replaceWhiteSpace (toLowerCase name)"

section \<open>Configuration\<close>

text \<open>
  Modelled from the spec: \<open>lib/config.ts\<close> is not among the sources, so the constants
  of \<open>CONFIG\<close> that the code reads are the fields of a record that every operation takes
  as a parameter.
\<close>

record config =
  TIMESTAMP_PAD_LENGTH :: nat
  MAX_RETRIES :: nat
  BASE_DELAY_MS :: int
  DEFAULT_METRICS_WINDOW_MS :: int
  FAILURE_RATE_THRESHOLD :: rat

text \<open>Modelled from the spec: the defaults of section 6 (\<open>W = 13\<close>, base delay 1000 ms,
  window 3 h); \<open>MAX_RETRIES = 3\<close> and the threshold \<open>1/2\<close> are the values the tests'
  comments use.\<close>

definition CONFIG :: config where
  "CONFIG = \<lparr>TIMESTAMP_PAD_LENGTH = 13, MAX_RETRIES = 3, BASE_DELAY_MS = 1000,
     DEFAULT_METRICS_WINDOW_MS = 10800000, FAILURE_RATE_THRESHOLD = 1 / 2\<rparr>"

section \<open>The ordered key-value store\<close>

text \<open>
  Modelled from the spec: the store (lmdb) is an external collaborator. A named database
  is a list of key-value pairs kept in strictly ascending key order; \<open>get\<close>, \<open>putSync\<close>,
  \<open>removeSync\<close> and \<open>getRange\<close> are the point read, the point write (replacing the value
  of a key already there), the point delete and the ordered scan of section 4.1. A
  \<open>transactionSync\<close> block is one step of the model: its writes are applied together.
\<close>

type_synonym 'v table = "(string \<times> 'v) list"

definition table_ok :: "'v table \<Rightarrow> bool" where
  "table_ok t \<longleftrightarrow> sorted_wrt (<) (map fst t)"

definition tbl_get :: "'v table \<Rightarrow> string \<Rightarrow> 'v option" where
  "tbl_get t k = map_of t k"

fun putSync :: "string \<Rightarrow> 'v \<Rightarrow> 'v table \<Rightarrow> 'v table" where
  "putSync k v [] = [(k, v)]"
| "putSync k v ((k', v') # t) =
     (if k = k' then (k, v) # t
      else if k < k' then (k, v) # (k', v') # t
      else (k', v') # putSync k v t)"

definition removeSync :: "string \<Rightarrow> 'v table \<Rightarrow> 'v table" where
  "removeSync k t = filter (\<lambda>e. fst e \<noteq> k) t"

text \<open>\<open>getRange({ limit: 1 })\<close>: the entry with the least key, if there is one.\<close>

definition getRange_limit1 :: "'v table \<Rightarrow> (string \<times> 'v) option" where
  "getRange_limit1 t = (case t of [] \<Rightarrow> None | e # _ \<Rightarrow> Some e)"

text \<open>\<open>getRange({ start })\<close>: the entries whose key is at least \<open>start\<close>, in key order.\<close>

definition getRange_start :: "string \<Rightarrow> 'v table \<Rightarrow> 'v table" where
  "getRange_start start t = filter (\<lambda>e. start \<le> fst e) t"

section \<open>The queue (\<open>lib/queue.ts\<close>)\<close>

definition indexKey :: "config \<Rightarrow> rat \<Rightarrow> string \<Rightarrow> string" where
  "indexKey cfg timestamp jobId =
     padStart (TIMESTAMP_PAD_LENGTH cfg) CHR ''0'' (js_String timestamp) @ ''-'' @ jobId"

record Queue =
  jobs :: "ResearchJob table"
  queueIndex :: "string table"

definition emptyQueue :: Queue where
  "emptyQueue = \<lparr>jobs = [], queueIndex = []\<rparr>"

text \<open>Every operation takes the reading of \<open>Date.now()\<close> it makes as the argument \<open>now\<close>,
  an integer, and returns its result together with the queue after the call. \<open>createdAt\<close> is
  always such a reading; \<open>availableForProcessingAt\<close> is a reading or the number given to
  \<open>retryJob\<close>, which need not be an integer.\<close>

definition submitJob :: "config \<Rightarrow> int \<Rightarrow> string \<Rightarrow> Queue \<Rightarrow> (ResearchJob \<times> bool) \<times> Queue" where
  "submitJob cfg now name q =
     (let jobId = toJobId name in
      case tbl_get (jobs q) jobId of
        Some existing \<Rightarrow>
          if status existing = Failed then
            (let resetJob = existing\<lparr>createdAt := now, availableForProcessingAt := of_int now,
                                     retryCount := 0, status := Queued, job_body := []\<rparr>
             in ((resetJob, False),
                 q\<lparr>jobs := putSync jobId resetJob (jobs q),
                   queueIndex := putSync (indexKey cfg (of_int now) jobId) jobId (queueIndex q)\<rparr>))
          else ((existing, True), q)
      | None \<Rightarrow>
          (let job = \<lparr>job_id = jobId, job_name = name, createdAt = now,
                      availableForProcessingAt = of_int now, retryCount = 0, status = Queued,
                      job_body = []\<rparr>
           in ((job, False),
               q\<lparr>jobs := putSync jobId job (jobs q),
                 queueIndex := putSync (indexKey cfg (of_int now) jobId) jobId (queueIndex q)\<rparr>)))"

definition claimJob :: "config \<Rightarrow> int \<Rightarrow> Queue \<Rightarrow> ResearchJob option \<times> Queue" where
  "claimJob cfg now q =
     (case getRange_limit1 (queueIndex q) of
        None \<Rightarrow> (None, q)
      | Some (key, value) \<Rightarrow>
          (let timestamp = parseInt (take (TIMESTAMP_PAD_LENGTH cfg) key) in
           if js_gt timestamp now then (None, q)
           else case tbl_get (jobs q) value of
                  None \<Rightarrow> (None, q\<lparr>queueIndex := removeSync key (queueIndex q)\<rparr>)
                | Some job \<Rightarrow>
                    (let updated = job\<lparr>status := Processing\<rparr>
                     in (Some updated,
                         q\<lparr>queueIndex := removeSync key (queueIndex q),
                           jobs := putSync (job_id job) updated (jobs q)\<rparr>))))"

definition getJob :: "string \<Rightarrow> Queue \<Rightarrow> ResearchJob option" where
  "getJob jobId q = tbl_get (jobs q) jobId"

definition completeJob :: "string \<Rightarrow> (string \<times> json) list \<Rightarrow> Queue \<Rightarrow> ResearchJob option \<times> Queue" where
  "completeJob jobId body q =
     (case tbl_get (jobs q) jobId of
        None \<Rightarrow> (None, q)
      | Some job \<Rightarrow>
          (let updated = job\<lparr>status := Completed, job_body := body\<rparr>
           in (Some updated, q\<lparr>jobs := putSync jobId updated (jobs q)\<rparr>)))"

definition retryJob :: "config \<Rightarrow> string \<Rightarrow> rat \<Rightarrow> Queue \<Rightarrow> ResearchJob option \<times> Queue" where
  "retryJob cfg jobId nextAvailableAt q =
     (case tbl_get (jobs q) jobId of
        None \<Rightarrow> (None, q)
      | Some job \<Rightarrow>
          (let updated = job\<lparr>status := Queued, retryCount := retryCount job + 1,
                             availableForProcessingAt := nextAvailableAt\<rparr>
           in (Some updated,
               q\<lparr>jobs := putSync jobId updated (jobs q),
                 queueIndex := putSync (indexKey cfg nextAvailableAt jobId) jobId (queueIndex q)\<rparr>)))"

definition failJob :: "string \<Rightarrow> Queue \<Rightarrow> ResearchJob option \<times> Queue" where
  "failJob jobId q =
     (case tbl_get (jobs q) jobId of
        None \<Rightarrow> (None, q)
      | Some job \<Rightarrow>
          (let updated = job\<lparr>status := Failed\<rparr>
           in (Some updated, q\<lparr>jobs := putSync jobId updated (jobs q)\<rparr>)))"

section \<open>The observer (\<open>observer/observer.ts\<close>)\<close>

datatype ActionType = JOB_SUBMITTED | JOB_DUPLICATE | JOB_CLAIMED | JOB_COMPLETED
  | JOB_RETRY | JOB_FAILED | API_REQUEST | WORKER_START

datatype LogType = Log | Warning | Error

text \<open>\<open>LogAction\<close>; the fields \<open>id\<close>, \<open>type\<close> and \<open>body\<close> carry the prefix \<open>log_\<close>.\<close>

record LogAction =
  log_id :: string
  timestamp :: int
  log_type :: LogType
  action :: ActionType
  log_body :: "(string \<times> json) list"

text \<open>The numbers of an alert message: the failure rate, the failed jobs and the total.
  The text printed on the console, with its \<open>toFixed(1)\<close> percentage, is not modelled.\<close>

datatype alert = HighFailureRate rat nat nat

record Observer =
  db :: "LogAction table"
  console :: "alert list"

definition emptyObserver :: Observer where
  "emptyObserver = \<lparr>db = [], console = []\<rparr>"

text \<open>What one call of \<open>log\<close> draws from its environment: \<open>Date.now()\<close> for the entry,
  \<open>crypto.randomUUID()\<close>, and the \<open>Date.now()\<close> that \<open>getMetrics\<close> reads when the entry
  is a \<open>job-failed\<close> one.\<close>

record stamp =
  loggedAt :: int
  uuid :: string
  checkedAt :: int

text \<open>Truthiness and \<open>typeof\<close> of a property that may be absent (\<open>undefined\<close> is \<open>None\<close>).\<close>

fun truthy :: "json option \<Rightarrow> bool" where
  "truthy None = False"
| "truthy (Some JNull) = False"
| "truthy (Some (JBool b)) = b"
| "truthy (Some (JNum n)) = (n \<noteq> 0)"
| "truthy (Some (JStr s)) = (s \<noteq> [])"
| "truthy (Some (JArr xs)) = True"
| "truthy (Some (JObj kvs)) = True"

fun typeof :: "json option \<Rightarrow> string" where
  "typeof None = ''undefined''"
| "typeof (Some JNull) = ''object''"
| "typeof (Some (JBool b)) = ''boolean''"
| "typeof (Some (JNum n)) = ''number''"
| "typeof (Some (JStr s)) = ''string''"
| "typeof (Some (JArr xs)) = ''object''"
| "typeof (Some (JObj kvs)) = ''object''"

text \<open>A JavaScript \<open>Map\<close>: \<open>set\<close> replaces the value of a key in place or appends a new
  key, so that iteration follows first insertion; keys are compared structurally, which
  is the \<open>Map\<close>'s comparison for strings, numbers and booleans.\<close>

fun map_set :: "'k \<Rightarrow> 'v \<Rightarrow> ('k \<times> 'v) list \<Rightarrow> ('k \<times> 'v) list" where
  "map_set k v [] = [(k, v)]"
| "map_set k v ((k', v') # m) = (if k' = k then (k, v) # m else (k', v') # map_set k v m)"

record metrics =
  submitted :: nat
  completed :: nat
  failed :: nat
  failureRate :: rat
  avgProcessingTimeMs :: "rat option"

text \<open>The variables of the scanning loop of \<open>getMetrics\<close>. Every key of the log is a string,
  so the loop skips no entry; the body of an entry is always an object.\<close>

record tally =
  n_submitted :: nat
  n_completed :: nat
  n_failed :: nat
  claimedTimes :: "(json \<times> int) list"
  completedTimes :: "(json \<times> int) list"

definition scanEntry :: "tally \<Rightarrow> LogAction \<Rightarrow> tally" where
  "scanEntry s entry =
     (case action entry of
        JOB_SUBMITTED \<Rightarrow> s\<lparr>n_submitted := n_submitted s + 1\<rparr>
      | JOB_COMPLETED \<Rightarrow>
          (let s' = s\<lparr>n_completed := n_completed s + 1\<rparr> in
           if truthy (map_of (log_body entry) ''jobId'')
           then s'\<lparr>completedTimes :=
                     map_set (the (map_of (log_body entry) ''jobId'')) (timestamp entry) (completedTimes s')\<rparr>
           else s')
      | JOB_FAILED \<Rightarrow> s\<lparr>n_failed := n_failed s + 1\<rparr>
      | JOB_CLAIMED \<Rightarrow>
          (if truthy (map_of (log_body entry) ''jobId'')
           then s\<lparr>claimedTimes :=
                    map_set (the (map_of (log_body entry) ''jobId'')) (timestamp entry) (claimedTimes s)\<rparr>
           else s)
      | _ \<Rightarrow> s)"

text \<open>The entries \<open>getMetrics\<close> scans: those from the start key of the window on.\<close>

definition scanned :: "config \<Rightarrow> int \<Rightarrow> int \<Rightarrow> Observer \<Rightarrow> LogAction list" where
  "scanned cfg now windowMs obs =
     (let windowStart = now - windowMs;
          startKey = padStart (TIMESTAMP_PAD_LENGTH cfg) CHR ''0'' (js_String (of_int windowStart))
      in map snd (getRange_start startKey (db obs)))"

text \<open>\<open>getMetrics(windowMs)\<close>; an absent argument (\<open>None\<close>) takes the default window. The
  quotients are exact rationals, where the code has the nearest double.\<close>

definition effectiveWindow :: "config \<Rightarrow> int option \<Rightarrow> int" where
  "effectiveWindow cfg windowMs =
     (case windowMs of None \<Rightarrow> DEFAULT_METRICS_WINDOW_MS cfg | Some v \<Rightarrow> v)"

definition getMetrics :: "config \<Rightarrow> int \<Rightarrow> int option \<Rightarrow> Observer \<Rightarrow> metrics" where
  "getMetrics cfg now windowMs obs =
     (let w = effectiveWindow cfg windowMs;
          s = foldl scanEntry
                \<lparr>n_submitted = 0, n_completed = 0, n_failed = 0, claimedTimes = [], completedTimes = []\<rparr>
                (scanned cfg now w obs);
          total = n_completed s + n_failed s;
          rate = (if total = 0 then 0 else of_nat (n_failed s) / of_nat total);
          processingTimes =
            concat (map (\<lambda>(jobId, completedAt).
                           case map_of (claimedTimes s) jobId of
                             None \<Rightarrow> []
                           | Some claimedAt \<Rightarrow> [completedAt - claimedAt])
                        (completedTimes s));
          avg = (if length processingTimes > 0
                 then Some (of_int (foldl (+) 0 processingTimes) / of_nat (length processingTimes))
                 else None)
      in \<lparr>submitted = n_submitted s, completed = n_completed s, failed = n_failed s,
          failureRate = rate, avgProcessingTimeMs = avg\<rparr>)"

definition checkFailureRate :: "config \<Rightarrow> int \<Rightarrow> Observer \<Rightarrow> Observer" where
  "checkFailureRate cfg now obs =
     (let m = getMetrics cfg now None obs in
      if failureRate m > FAILURE_RATE_THRESHOLD cfg
      then obs\<lparr>console := console obs @ [HighFailureRate (failureRate m) (failed m) (completed m + failed m)]\<rparr>
      else obs)"

definition log :: "config \<Rightarrow> stamp \<Rightarrow> ActionType \<Rightarrow> LogType \<Rightarrow> (string \<times> json) list \<Rightarrow> Observer \<Rightarrow> Observer" where
  "log cfg st act type body obs =
     (let entry = \<lparr>log_id = uuid st, timestamp = loggedAt st, log_type = type, action = act, log_body = body\<rparr>;
          key = padStart (TIMESTAMP_PAD_LENGTH cfg) CHR ''0'' (js_String (of_int (timestamp entry))) @ ''-'' @ log_id entry;
          obs' = obs\<lparr>db := putSync key entry (db obs)\<rparr>
      in if act = JOB_FAILED then checkFailureRate cfg (checkedAt st) obs' else obs')"

section \<open>The admission surface (\<open>index.ts\<close>)\<close>

record response =
  statusCode :: nat
  payload :: json

definition statusString :: "JobStatus \<Rightarrow> string" where
  "statusString s = (case s of Queued \<Rightarrow> ''queued'' | Processing \<Rightarrow> ''processing''
                     | Completed \<Rightarrow> ''completed'' | Failed \<Rightarrow> ''failed'')"

text \<open>What one \<open>POST /bird\<close> request draws from its environment: the stamp of the
  \<open>api-request\<close> entry, the \<open>Date.now()\<close> of \<open>submitJob\<close> and the stamp of the entry the
  handler logs.\<close>

record post_inputs =
  requestStamp :: stamp
  submitNow :: int
  handlerStamp :: stamp

text \<open>The logging middleware, for a request with the JSON object \<open>body\<close> as its body (the
  query string is empty). \<open>express.json()\<close> hands the handler the fields of the parsed
  object; a body that is an array, or no body at all, has no field called \<open>name\<close>.\<close>

definition requestLogger :: "config \<Rightarrow> stamp \<Rightarrow> string \<Rightarrow> string \<Rightarrow> (string \<times> json) list \<Rightarrow> Observer \<Rightarrow> Observer" where
  "requestLogger cfg st method path body obs =
     log cfg st API_REQUEST Log
       [(''method'', JStr method), (''path'', JStr path), (''query'', JObj []), (''body'', JObj body)] obs"

definition asString :: "json option \<Rightarrow> string" where
  "asString v = (case v of Some (JStr s) \<Rightarrow> s | _ \<Rightarrow> [])"

definition jobSummary :: "ResearchJob \<Rightarrow> json" where
  "jobSummary job = JObj [(''id'', JStr (job_id job)), (''name'', JStr (job_name job)),
     (''status'', JStr (statusString (status job))), (''createdAt'', JNum (of_int (createdAt job)))]"

definition postBirdHandler :: "config \<Rightarrow> post_inputs \<Rightarrow> (string \<times> json) list \<Rightarrow> Queue \<times> Observer
    \<Rightarrow> response \<times> Queue \<times> Observer" where
  "postBirdHandler cfg ins body s =
     (let name = map_of body ''name''; q = fst s; obs = snd s in
      if \<not> truthy name \<or> typeof name \<noteq> ''string''
      then (\<lparr>statusCode = 400, payload = JObj [(''error'', JStr ''Missing required field: name'')]\<rparr>, q, obs)
      else
        (let r = submitJob cfg (submitNow ins) (asString name) q;
             job = fst (fst r); isDuplicate = snd (fst r); q' = snd r in
         if isDuplicate
         then (\<lparr>statusCode = 200, payload = jobSummary job\<rparr>, q',
               log cfg (handlerStamp ins) JOB_DUPLICATE Log
                 [(''jobId'', JStr (job_id job)), (''name'', JStr (job_name job)),
                  (''currentStatus'', JStr (statusString (status job)))] obs)
         else (\<lparr>statusCode = 201, payload = jobSummary job\<rparr>, q',
               log cfg (handlerStamp ins) JOB_SUBMITTED Log
                 [(''jobId'', JStr (job_id job)), (''name'', JStr (job_name job))] obs)))"

text \<open>A whole \<open>POST /bird\<close> request: the middleware, then the handler.\<close>

definition postBird :: "config \<Rightarrow> post_inputs \<Rightarrow> (string \<times> json) list \<Rightarrow> Queue \<times> Observer
    \<Rightarrow> response \<times> Queue \<times> Observer" where
  "postBird cfg ins body s =
     postBirdHandler cfg ins body
       (fst s, requestLogger cfg (requestStamp ins) ''POST'' ''/bird'' body (snd s))"

section \<open>The worker (\<open>worker/worker.ts\<close>)\<close>

text \<open>\<open>computeBackoff\<close>; \<open>random\<close> is the value of \<open>Math.random()\<close>, a number from 0 up to but
  not including 1, so the result is in general not an integer.\<close>

definition computeBackoff :: "config \<Rightarrow> int \<Rightarrow> rat \<Rightarrow> nat \<Rightarrow> rat" where
  "computeBackoff cfg now random retries =
     (let delay = 2 ^ (retries + 1) * BASE_DELAY_MS cfg;
          jitter = random * of_int (BASE_DELAY_MS cfg)
      in of_int now + of_int delay + jitter)"

text \<open>\<open>runWorker\<close> first logs that the worker has started.\<close>

definition runWorkerStart :: "config \<Rightarrow> string \<Rightarrow> stamp \<Rightarrow> Observer \<Rightarrow> Observer" where
  "runWorkerStart cfg workerId st obs = log cfg st WORKER_START Log [(''workerId'', JStr workerId)] obs"

text \<open>One run of \<open>poll\<close> has two synchronous parts, before and after it awaits the
  external processor. The first claims a job; the second receives the processor's
  result, a body or an error message, and settles the job.\<close>

definition pollClaim :: "config \<Rightarrow> string \<Rightarrow> int \<Rightarrow> stamp \<Rightarrow> Queue \<times> Observer
    \<Rightarrow> ResearchJob option \<times> Queue \<times> Observer" where
  "pollClaim cfg workerId now st s =
     (case claimJob cfg now (fst s) of
        (None, q') \<Rightarrow> (None, q', snd s)
      | (Some job, q') \<Rightarrow>
          (Some job, q',
           log cfg st JOB_CLAIMED Log
             [(''jobId'', JStr (job_id job)), (''name'', JStr (job_name job)),
              (''workerId'', JStr workerId)] (snd s)))"

datatype processed = Resolved "(string \<times> json) list" | Rejected string

definition pollSettle :: "config \<Rightarrow> string \<Rightarrow> ResearchJob \<Rightarrow> processed \<Rightarrow> int \<Rightarrow> rat \<Rightarrow> stamp
    \<Rightarrow> Queue \<times> Observer \<Rightarrow> Queue \<times> Observer" where
  "pollSettle cfg workerId job result now random st s =
     (case result of
        Resolved body \<Rightarrow>
          (snd (completeJob (job_id job) body (fst s)),
           log cfg st JOB_COMPLETED Log
             [(''jobId'', JStr (job_id job)), (''name'', JStr (job_name job)),
              (''workerId'', JStr workerId)] (snd s))
      | Rejected error \<Rightarrow>
          if retryCount job \<ge> MAX_RETRIES cfg
          then (snd (failJob (job_id job) (fst s)),
                log cfg st JOB_FAILED Error
                  [(''jobId'', JStr (job_id job)), (''name'', JStr (job_name job)),
                   (''workerId'', JStr workerId), (''retryCount'', JNum (of_nat (retryCount job))),
                   (''error'', JStr error)] (snd s))
          else (let nextAvailableAt = computeBackoff cfg now random (retryCount job) in
                (snd (retryJob cfg (job_id job) nextAvailableAt (fst s)),
                 log cfg st JOB_RETRY Warning
                   [(''jobId'', JStr (job_id job)), (''name'', JStr (job_name job)),
                    (''workerId'', JStr workerId), (''retryCount'', JNum (of_nat (retryCount job + 1))),
                    (''nextAvailableAt'', JNum nextAvailableAt), (''error'', JStr error)] (snd s))))"

section \<open>The running system\<close>

text \<open>
  The admission surface and any number of workers share one queue and one observer.
  \<open>inflight i\<close> is the job that worker number \<open>i\<close> has claimed and whose processing it
  awaits; a worker schedules its next tick only when the current one has settled, so it
  holds at most one job. The events are the start of a worker and the synchronous steps
  that change the queue: a \<open>POST /bird\<close> request, the first part of a tick, and the second
  part of a tick with the processor's result. The requests \<open>GET /bird\<close> and \<open>GET /metrics\<close>
  read the queue and the log and write only an \<open>api-request\<close> entry; they are not among
  the events.
\<close>

record System =
  queue :: Queue
  observer :: Observer
  inflight :: "nat \<Rightarrow> ResearchJob option"

definition initial :: System where
  "initial = \<lparr>queue = emptyQueue, observer = emptyObserver, inflight = (\<lambda>i. None)\<rparr>"

datatype event =
    Start string stamp
  | Post post_inputs "(string \<times> json) list"
  | Tick nat string int stamp
  | Settled nat string processed int rat stamp

definition step :: "config \<Rightarrow> System \<Rightarrow> event \<Rightarrow> System" where
  "step cfg s e =
     (case e of
        Start workerId st \<Rightarrow> s\<lparr>observer := runWorkerStart cfg workerId st (observer s)\<rparr>
      | Post ins body \<Rightarrow>
          (let r = postBird cfg ins body (queue s, observer s)
           in s\<lparr>queue := fst (snd r), observer := snd (snd r)\<rparr>)
      | Tick i workerId now st \<Rightarrow>
          (case inflight s i of
             Some job \<Rightarrow> s
           | None \<Rightarrow>
               (let r = pollClaim cfg workerId now st (queue s, observer s)
                in s\<lparr>queue := fst (snd r), observer := snd (snd r),
                     inflight := (inflight s)(i := fst r)\<rparr>))
      | Settled i workerId result now random st \<Rightarrow>
          (case inflight s i of
             None \<Rightarrow> s
           | Some job \<Rightarrow>
               (let r = pollSettle cfg workerId job result now random st (queue s, observer s)
                in s\<lparr>queue := fst r, observer := snd r, inflight := (inflight s)(i := None)\<rparr>)))"

definition run :: "config \<Rightarrow> event list \<Rightarrow> System" where
  "run cfg es = foldl (step cfg) initial es"

section \<open>Auxiliary definitions for the proofs\<close>

text \<open>The decimal numeral of \<open>n\<close> in exactly \<open>w\<close> digits, for comparing padded timestamps.\<close>

fun fixdec :: "nat \<Rightarrow> nat \<Rightarrow> string" where
  "fixdec 0 n = []"
| "fixdec (Suc w) n = fixdec w (n div 10) @ [digit (n mod 10)]"

text \<open>Example states: a job submitted as \<open>Brown Pelican\<close> at time 100, the queue that holds it,
  the queue after that job has failed for good, and a queue whose index starts with an entry
  for a job that has no record.\<close>

definition pelican :: ResearchJob where
  "pelican = \<lparr>job_id = ''brown-pelican'', job_name = ''Brown Pelican'', createdAt = 100,
     availableForProcessingAt = 100, retryCount = 0, status = Queued, job_body = []\<rparr>"

definition queue1 :: Queue where
  "queue1 = \<lparr>jobs = [(''brown-pelican'', pelican)],
     queueIndex = [(''0000000000100-brown-pelican'', ''brown-pelican'')]\<rparr>"

definition failedQueue :: Queue where
  "failedQueue = \<lparr>jobs = [(''brown-pelican'', pelican\<lparr>retryCount := 3, status := Failed\<rparr>)],
     queueIndex = []\<rparr>"

definition orphanQueue :: Queue where
  "orphanQueue = \<lparr>jobs = [(''brown-pelican'', pelican)],
     queueIndex = [(''0000000000050-ghost'', ''ghost''),
                   (''0000000000100-brown-pelican'', ''brown-pelican'')]\<rparr>"

text \<open>Stamps and request inputs at a given time, a configuration with short delays, an
  event log, and a run of the system in which one job fails twice.\<close>

definition stampAt :: "int \<Rightarrow> string \<Rightarrow> stamp" where
  "stampAt t u = \<lparr>loggedAt = t, uuid = u, checkedAt = t\<rparr>"

definition inputsAt :: "int \<Rightarrow> post_inputs" where
  "inputsAt t = \<lparr>requestStamp = stampAt t ''u-request'', submitNow = t, handlerStamp = stampAt t ''u-handler''\<rparr>"

definition testConfig :: config where
  "testConfig = \<lparr>TIMESTAMP_PAD_LENGTH = 13, MAX_RETRIES = 1, BASE_DELAY_MS = 10,
     DEFAULT_METRICS_WINDOW_MS = 150, FAILURE_RATE_THRESHOLD = 1 / 2\<rparr>"

definition exampleLog :: Observer where
  "exampleLog =
     log testConfig (stampAt 104 ''e4'') JOB_FAILED Error [(''jobId'', JStr ''b'')]
       (log testConfig (stampAt 103 ''e3'') JOB_COMPLETED Log [(''jobId'', JStr ''a'')]
         (log testConfig (stampAt 102 ''e2'') JOB_SUBMITTED Log [(''jobId'', JStr ''b'')]
           (log testConfig (stampAt 101 ''e1'') JOB_SUBMITTED Log [(''jobId'', JStr ''a'')] emptyObserver)))"

definition exampleRun :: "event list" where
  "exampleRun =
     [Post (inputsAt 100) [(''name'', JStr ''A'')],
      Tick 0 ''w-1'' 100 (stampAt 100 ''u1''),
      Settled 0 ''w-1'' (Rejected ''boom'') 101 (7 / 10) (stampAt 101 ''u2''),
      Tick 0 ''w-1'' 200 (stampAt 200 ''u3''),
      Settled 0 ''w-1'' (Rejected ''boom'') 201 (7 / 10) (stampAt 201 ''u4'')]"

definition jobA :: ResearchJob where
  "jobA = \<lparr>job_id = ''a'', job_name = ''A'', createdAt = 100, availableForProcessingAt = 128,
     retryCount = 1, status = Failed, job_body = []\<rparr>"

definition jobA0 :: ResearchJob where
  "jobA0 = \<lparr>job_id = ''a'', job_name = ''A'', createdAt = 100, availableForProcessingAt = 100,
     retryCount = 0, status = Queued, job_body = []\<rparr>"

text \<open>A run on the clock of the year 2023 in which the processor fails a job once, with
  \<open>Math.random() = 1/16\<close> in \<open>computeBackoff\<close>, and the job as the next claim returns it.\<close>

definition retryRun :: "event list" where
  "retryRun =
     [Post (inputsAt 1700000000000) [(''name'', JStr ''A'')],
      Tick 0 ''w-1'' 1700000000000 (stampAt 1700000000000 ''u1''),
      Settled 0 ''w-1'' (Rejected ''boom'') 1700000000001 (1 / 16) (stampAt 1700000000001 ''u2'')]"

definition retriedJob :: ResearchJob where
  "retriedJob = \<lparr>job_id = ''a'', job_name = ''A'', createdAt = 1700000000000,
     availableForProcessingAt = 3400000004127 / 2, retryCount = 1, status = Processing,
     job_body = []\<rparr>"

text \<open>A run in which two workers tick after two submissions, and the jobs they hold then.\<close>

definition twoWorkerRun :: "event list" where
  "twoWorkerRun =
     [Post (inputsAt 100) [(''name'', JStr ''A'')],
      Post (inputsAt 100) [(''name'', JStr ''B'')],
      Tick 0 ''w-1'' 100 (stampAt 100 ''u1''),
      Tick 1 ''w-2'' 100 (stampAt 100 ''u2'')]"

definition jobB0 :: ResearchJob where
  "jobB0 = \<lparr>job_id = ''b'', job_name = ''B'', createdAt = 100, availableForProcessingAt = 100,
     retryCount = 0, status = Queued, job_body = []\<rparr>"

text \<open>The invariant of the running system: every record is stored under its own id with
  a retry count within the bound; a job a worker holds is stored as held, in status
  processing, and is held by that worker only; every index entry names a queued job; and
  no two index entries name the same job.\<close>

definition inv :: "config \<Rightarrow> Queue \<Rightarrow> (nat \<Rightarrow> ResearchJob option) \<Rightarrow> bool" where
  "inv cfg q fl \<longleftrightarrow>
     (\<forall>k j. tbl_get (jobs q) k = Some j \<longrightarrow> job_id j = k \<and> retryCount j \<le> MAX_RETRIES cfg) \<and>
     (\<forall>i j. fl i = Some j \<longrightarrow> tbl_get (jobs q) (job_id j) = Some j \<and> status j = Processing) \<and>
     (\<forall>i i' j j'. fl i = Some j \<and> fl i' = Some j' \<and> job_id j = job_id j' \<longrightarrow> i = i') \<and>
     (\<forall>e \<in> set (queueIndex q). \<exists>j. tbl_get (jobs q) (snd e) = Some j \<and> status j = Queued) \<and>
     distinct (map snd (queueIndex q))"

text \<open>Both tables of a queue are well-formed tables of the store.\<close>

definition queue_ok :: "Queue \<Rightarrow> bool" where
  "queue_ok q \<longleftrightarrow> table_ok (jobs q) \<and> table_ok (queueIndex q)"

section \<open>Properties of the store\<close>

lemma map_of_putSync: "map_of (putSync k v t) = (map_of t)(k \<mapsto> v)"
  by (induction t) (auto simp: fun_eq_iff)

lemma tbl_get_putSync: "tbl_get (putSync k v t) k' = (if k' = k then Some v else tbl_get t k')"
  by (simp add: tbl_get_def map_of_putSync)

lemma tbl_get_removeSync: "tbl_get (removeSync k t) k' = (if k' = k then None else tbl_get t k')"
  unfolding tbl_get_def removeSync_def
  by (induction t) auto

lemma set_putSync: "set (putSync k v t) \<subseteq> insert (k, v) (set t)"
  by (induction t) (auto split: if_splits)

lemma table_ok_Cons: "table_ok ((k, v) # t) \<longleftrightarrow> (\<forall>e \<in> set t. k < fst e) \<and> table_ok t"
  by (auto simp: table_ok_def)

lemma table_ok_putSync: "table_ok t \<Longrightarrow> table_ok (putSync k v t)"
proof (induction t)
  case Nil
  then show ?case by (simp add: table_ok_def)
next
  case (Cons e t)
  obtain k' v' where e: "e = (k', v')" by (cases e)
  from Cons.prems have ok: "table_ok t" and lt: "\<forall>x \<in> set t. k' < fst x"
    by (simp_all add: e table_ok_Cons)
  show ?case
  proof (cases "k = k'")
    case True
    then show ?thesis using ok lt by (simp add: e table_ok_Cons)
  next
    case False
    show ?thesis
    proof (cases "k < k'")
      case True
      then show ?thesis using ok lt \<open>k \<noteq> k'\<close>
        by (auto simp: e table_ok_Cons)
    next
      case False
      then have "k' < k" using \<open>k \<noteq> k'\<close> by simp
      then have "\<forall>x \<in> set (putSync k v t). k' < fst x"
        using lt set_putSync [of k v t] by auto
      then show ?thesis using False \<open>k \<noteq> k'\<close> Cons.IH [OF ok] by (simp add: e table_ok_Cons)
    qed
  qed
qed

lemma table_ok_removeSync: "table_ok t \<Longrightarrow> table_ok (removeSync k t)"
  unfolding table_ok_def removeSync_def
  by (induction t) (auto)

lemma removeSync_head: "table_ok ((k, v) # t) \<Longrightarrow> removeSync k ((k, v) # t) = t"
  by (auto simp: removeSync_def table_ok_Cons intro!: filter_True)

lemma getRange_limit1_least:
  "table_ok t \<Longrightarrow> getRange_limit1 t = Some (k, v) \<Longrightarrow> \<forall>e \<in> set t. k \<le> fst e"
  by (cases t) (auto simp: getRange_limit1_def table_ok_Cons)

section \<open>Decimal timestamps\<close>

lemma of_char_digit: "d < 10 \<Longrightarrow> of_char (digit d) = 48 + d"
  by (simp add: digit_def)

lemma digit_less_iff: "d < 10 \<Longrightarrow> e < 10 \<Longrightarrow> digit d < digit e \<longleftrightarrow> d < e"
  by (simp add: less_char_def of_char_digit)

lemma digit_eq_iff: "d < 10 \<Longrightarrow> e < 10 \<Longrightarrow> digit d = digit e \<longleftrightarrow> d = e"
  by (metis of_char_digit add_left_cancel)

lemma isDigit_digit: "d < 10 \<Longrightarrow> isDigit (digit d)"
  by (simp add: isDigit_def less_eq_char_def of_char_digit del: less_eq_char_simp)

lemma digitValue_digit: "d < 10 \<Longrightarrow> digitValue (digit d) = d"
  by (simp add: digitValue_def of_char_digit)

lemma isDigit_iff: "isDigit c \<longleftrightarrow> 48 \<le> (of_char c :: nat) \<and> (of_char c :: nat) \<le> 57"
  by (simp add: isDigit_def less_eq_char_def)

lemma isDigit_not_space: "isDigit c \<Longrightarrow> \<not> isWhiteSpace c"
  by (auto simp: isDigit_iff isWhiteSpace_def)

lemma isDigit_not_sign: "isDigit c \<Longrightarrow> c \<noteq> CHR ''-'' \<and> c \<noteq> CHR ''+''"
  by (auto simp: isDigit_iff)

lemma digit_0: "digit 0 = CHR ''0''"
  by (rule of_char_eqI [where ?'a = nat]) (simp add: digit_def)

lemma div_mod_less_iff:
  "(a::nat) < b \<longleftrightarrow> a div 10 < b div 10 \<or> (a div 10 = b div 10 \<and> a mod 10 < b mod 10)"
proof -
  have "a = 10 * (a div 10) + a mod 10" "b = 10 * (b div 10) + b mod 10" by simp_all
  moreover have "a mod 10 < 10" "b mod 10 < 10" by simp_all
  ultimately show ?thesis by linarith
qed

lemma length_fixdec: "length (fixdec w n) = w"
  by (induction w arbitrary: n) auto

lemma fixdec_zero: "fixdec w 0 = replicate w (CHR ''0'')"
  by (induction w) (simp_all add: digit_0 replicate_append_same)

lemma padStart_snoc: "padStart (Suc w) c (xs @ [d]) = padStart w c xs @ [d]"
  by (simp add: padStart_def)

lemma padStart_dec: "0 < w \<Longrightarrow> n < 10 ^ w \<Longrightarrow> padStart w (CHR ''0'') (dec n) = fixdec w n"
proof (induction w arbitrary: n)
  case 0
  then show ?case by simp
next
  case (Suc w)
  show ?case
  proof (cases "n < 10")
    case True
    then have "dec n = [digit n]" by (simp add: dec.simps)
    then show ?thesis using True by (simp add: padStart_def fixdec_zero)
  next
    case False
    then have d: "dec n = dec (n div 10) @ [digit (n mod 10)]" by (subst dec.simps) simp
    from False Suc.prems have "0 < w" by (cases w) auto
    moreover from Suc.prems have "n div 10 < 10 ^ w" by (simp add: less_mult_imp_div_less mult.commute)
    ultimately have "padStart w (CHR ''0'') (dec (n div 10)) = fixdec w (n div 10)" by (rule Suc.IH)
    then show ?thesis by (simp add: d padStart_snoc)
  qed
qed

lemma append_less_iff:
  "length xs = length ys \<Longrightarrow> xs @ us < ys @ vs \<longleftrightarrow> xs < ys \<or> (xs = ys \<and> us < (vs :: 'a :: linorder list))"
  by (induction xs ys rule: list_induct2) auto

lemma fixdec_inj: "a < 10 ^ w \<Longrightarrow> b < 10 ^ w \<Longrightarrow> fixdec w a = fixdec w b \<longleftrightarrow> a = b"
proof (induction w arbitrary: a b)
  case 0
  then show ?case by simp
next
  case (Suc w)
  from Suc.prems have "a div 10 < 10 ^ w" "b div 10 < 10 ^ w"
    by (simp_all add: less_mult_imp_div_less mult.commute)
  then have "fixdec w (a div 10) = fixdec w (b div 10) \<longleftrightarrow> a div 10 = b div 10" by (rule Suc.IH)
  moreover have "digit (a mod 10) = digit (b mod 10) \<longleftrightarrow> a mod 10 = b mod 10"
    by (simp add: digit_eq_iff)
  moreover have "a = b \<longleftrightarrow> a div 10 = b div 10 \<and> a mod 10 = b mod 10"
    by (metis div_mult_mod_eq)
  ultimately show ?case by simp
qed

lemma fixdec_less_iff: "a < 10 ^ w \<Longrightarrow> b < 10 ^ w \<Longrightarrow> fixdec w a < fixdec w b \<longleftrightarrow> a < b"
proof (induction w arbitrary: a b)
  case 0
  then show ?case by simp
next
  case (Suc w)
  from Suc.prems have bnd: "a div 10 < 10 ^ w" "b div 10 < 10 ^ w"
    by (simp_all add: less_mult_imp_div_less mult.commute)
  then have lt: "fixdec w (a div 10) < fixdec w (b div 10) \<longleftrightarrow> a div 10 < b div 10" by (rule Suc.IH)
  have eq: "fixdec w (a div 10) = fixdec w (b div 10) \<longleftrightarrow> a div 10 = b div 10"
    using bnd by (rule fixdec_inj)
  have dg: "digit (a mod 10) < digit (b mod 10) \<longleftrightarrow> a mod 10 < b mod 10"
    by (simp add: digit_less_iff)
  have ar: "a < b \<longleftrightarrow> a div 10 < b div 10 \<or> (a div 10 = b div 10 \<and> a mod 10 < b mod 10)"
    by (rule div_mod_less_iff)
  have "fixdec (Suc w) a < fixdec (Suc w) b \<longleftrightarrow>
        fixdec w (a div 10) < fixdec w (b div 10) \<or>
        (fixdec w (a div 10) = fixdec w (b div 10) \<and> [digit (a mod 10)] < [digit (b mod 10)])"
    by (simp add: append_less_iff length_fixdec)
  then show ?case by (simp add: lt eq dg ar)
qed

lemma digitsValue_snoc: "digitsValue (xs @ [c]) = 10 * digitsValue xs + digitValue c"
  by (simp add: digitsValue_def)

lemma digitsValue_fixdec: "n < 10 ^ w \<Longrightarrow> digitsValue (fixdec w n) = n"
proof (induction w arbitrary: n)
  case 0
  then show ?case by (simp add: digitsValue_def)
next
  case (Suc w)
  from Suc.prems have "n div 10 < 10 ^ w" by (simp add: less_mult_imp_div_less mult.commute)
  then have "digitsValue (fixdec w (n div 10)) = n div 10" by (rule Suc.IH)
  then show ?case by (simp add: digitsValue_snoc digitValue_digit)
qed

lemma isDigit_fixdec: "c \<in> set (fixdec w n) \<Longrightarrow> isDigit c"
  by (induction w arbitrary: n) (auto simp: isDigit_digit)

lemma parseInt_digits:
  assumes "ds \<noteq> []" and "\<forall>c \<in> set ds. isDigit c"
  shows "parseInt ds = Some (int (digitsValue ds))"
proof -
  from assms obtain c cs where ds: "ds = c # cs" by (cases ds) auto
  with assms have c: "isDigit c" by simp
  have 1: "dropWhile isWhiteSpace ds = ds" using c by (simp add: ds isDigit_not_space)
  have 2: "takeWhile isDigit ds = ds" using assms by (simp add: takeWhile_eq_all_conv)
  have 3: "hd ds \<noteq> CHR ''-''" "hd ds \<noteq> CHR ''+''" using isDigit_not_sign [OF c] by (simp_all add: ds)
  show ?thesis
    unfolding parseInt_def Let_def 1 using assms(1) by (simp add: 2 3)
qed

lemma js_String_of_int: "0 \<le> t \<Longrightarrow> js_String (of_int t) = dec (nat t)"
  by (simp add: js_String_def Let_def)

lemma indexKey_fixdec:
  "0 < TIMESTAMP_PAD_LENGTH cfg \<Longrightarrow> 0 \<le> t \<Longrightarrow> t < 10 ^ TIMESTAMP_PAD_LENGTH cfg \<Longrightarrow>
   indexKey cfg (of_int t) jobId = fixdec (TIMESTAMP_PAD_LENGTH cfg) (nat t) @ CHR ''-'' # jobId"
proof -
  assume w: "0 < TIMESTAMP_PAD_LENGTH cfg" and t: "0 \<le> t" "t < 10 ^ TIMESTAMP_PAD_LENGTH cfg"
  have "nat t < 10 ^ TIMESTAMP_PAD_LENGTH cfg" using t by (simp add: nat_less_iff)
  then show ?thesis using w t(1) by (simp add: indexKey_def js_String_of_int padStart_dec)
qed

text \<open>The digits of \<open>String\<close> of a non-negative number: those of its integer part, followed by
  nothing or by a point and the fraction.\<close>

lemma isDigit_dec: "c \<in> set (dec n) \<Longrightarrow> isDigit c"
proof (induction n arbitrary: c rule: dec.induct)
  case (1 n)
  show ?case
  proof (cases "n < 10")
    case True
    then show ?thesis using "1.prems" by (subst (asm) dec.simps) (simp add: isDigit_digit)
  next
    case False
    then have "c \<in> set (dec (n div 10)) \<or> c = digit (n mod 10)"
      using "1.prems" by (subst (asm) dec.simps) auto
    then show ?thesis using "1.IH" [OF False] by (auto simp: isDigit_digit)
  qed
qed

lemma dec_not_Nil: "dec n \<noteq> []"
  by (subst dec.simps) simp

lemma digitsValue_dec: "digitsValue (dec n) = n"
proof (induction n rule: dec.induct)
  case (1 n)
  show ?case
  proof (cases "n < 10")
    case True
    then show ?thesis by (subst dec.simps) (simp add: digitsValue_def digitValue_digit)
  next
    case False
    then show ?thesis using "1.IH" [OF False]
      by (subst dec.simps) (simp add: digitsValue_snoc digitValue_digit)
  qed
qed

lemma length_dec_le: "0 < w \<Longrightarrow> n < 10 ^ w \<Longrightarrow> length (dec n) \<le> w"
proof -
  assume "0 < w" "n < 10 ^ w"
  then have "padStart w (CHR ''0'') (dec n) = fixdec w n" by (rule padStart_dec)
  then have "length (padStart w (CHR ''0'') (dec n)) = w" by (simp add: length_fixdec)
  then show ?thesis by (simp add: padStart_def)
qed

lemma digitsValue_zeros: "digitsValue (replicate z (CHR ''0'') @ ds) = digitsValue ds"
proof -
  have "foldl (\<lambda>acc c. 10 * acc + digitValue c) 0 (replicate z (CHR ''0'')) = 0"
    by (induction z) (simp_all add: digitValue_def)
  then show ?thesis by (simp add: digitsValue_def)
qed

lemma parseInt_digits_then:
  assumes "ds \<noteq> []" and "\<forall>c \<in> set ds. isDigit c" and "r = [] \<or> \<not> isDigit (hd r)"
  shows "parseInt (ds @ r) = Some (int (digitsValue ds))"
proof -
  from assms obtain c cs where ds: "ds = c # cs" by (cases ds) auto
  with assms have c: "isDigit c" by simp
  have 1: "dropWhile isWhiteSpace (ds @ r) = ds @ r" using c by (simp add: ds isDigit_not_space)
  have 2: "takeWhile isDigit (ds @ r) = ds"
    using assms(2,3) by (cases r) (simp_all add: takeWhile_append2 takeWhile_eq_all_conv)
  have 3: "hd ds \<noteq> CHR ''-''" "hd ds \<noteq> CHR ''+''"
    using isDigit_not_sign [OF c] by (simp_all add: ds)
  have 4: "ds @ r \<noteq> []" using assms(1) by simp
  show ?thesis
    unfolding parseInt_def Let_def 1 using assms(1) 4 by (simp add: 2 3)
qed

text \<open>The timestamp \<open>claimJob\<close> reads from the index key of a non-negative number below
  \<open>10 ^ W\<close> is the integer part of that number: the fraction is cut off.\<close>

lemma parseInt_indexKey_floor:
  assumes w: "0 < TIMESTAMP_PAD_LENGTH cfg" and x: "0 \<le> x" and b: "\<lfloor>x\<rfloor> < 10 ^ TIMESTAMP_PAD_LENGTH cfg"
  shows "parseInt (take (TIMESTAMP_PAD_LENGTH cfg) (indexKey cfg x jobId)) = Some \<lfloor>x\<rfloor>"
proof -
  let ?w = "TIMESTAMP_PAD_LENGTH cfg"
  define n where "n = nat \<lfloor>x\<rfloor>"
  have n: "n < 10 ^ ?w" using b x by (simp add: n_def nat_less_iff)
  have fl: "int n = \<lfloor>x\<rfloor>" using x by (simp add: n_def)
  obtain tail where s: "js_String x = dec n @ tail" and tail: "tail = [] \<or> hd tail = CHR ''.''"
    using x by (auto simp: js_String_def Let_def n_def)
  define rest where "rest = tail @ CHR ''-'' # jobId"
  have rest: "rest \<noteq> []" "\<not> isDigit (hd rest)"
    using tail by (cases tail; auto simp: rest_def isDigit_iff)+
  define z where "z = ?w - length (dec n @ tail)"
  have key: "indexKey cfg x jobId = (replicate z (CHR ''0'') @ dec n) @ rest"
    by (simp add: indexKey_def padStart_def s z_def rest_def)
  have len: "length (replicate z (CHR ''0'') @ dec n) \<le> ?w"
    using length_dec_le [OF w n] by (simp add: z_def)
  define r where "r = take (?w - length (replicate z (CHR ''0'') @ dec n)) rest"
  have tk: "take ?w (indexKey cfg x jobId) = (replicate z (CHR ''0'') @ dec n) @ r"
    using len unfolding key r_def by (simp del: append_assoc)
  have r: "r = [] \<or> \<not> isDigit (hd r)"
    using rest by (cases "?w - length (replicate z (CHR ''0'') @ dec n)") (auto simp: r_def hd_take)
  have d: "\<forall>c \<in> set (replicate z (CHR ''0'') @ dec n). isDigit c"
    using isDigit_digit [of 0] by (auto simp: digit_0 dest: isDigit_dec)
  have "parseInt ((replicate z (CHR ''0'') @ dec n) @ r) =
        Some (int (digitsValue (replicate z (CHR ''0'') @ dec n)))"
    using d r by (intro parseInt_digits_then) (simp_all add: dec_not_Nil)
  then show ?thesis by (simp add: tk digitsValue_zeros digitsValue_dec fl del: append_assoc)
qed

lemma parseInt_indexKey:
  assumes "0 < TIMESTAMP_PAD_LENGTH cfg" "0 \<le> t" "t < 10 ^ TIMESTAMP_PAD_LENGTH cfg"
  shows "parseInt (take (TIMESTAMP_PAD_LENGTH cfg) (indexKey cfg (of_int t) jobId)) = Some t"
  using parseInt_indexKey_floor [of cfg "of_int t" jobId] assms by simp

section \<open>Index keys\<close>

lemma indexKey_less_iff:
  assumes "0 \<le> t1" "t1 < 10 ^ TIMESTAMP_PAD_LENGTH cfg" "0 \<le> t2" "t2 < 10 ^ TIMESTAMP_PAD_LENGTH cfg"
  shows "indexKey cfg (of_int t1) i1 < indexKey cfg (of_int t2) i2 \<longleftrightarrow> t1 < t2 \<or> (t1 = t2 \<and> i1 < i2)"
proof (cases "TIMESTAMP_PAD_LENGTH cfg = 0")
  case True
  with assms have "t1 = 0" "t2 = 0" by simp_all
  then show ?thesis by (simp add: indexKey_def append_less_iff)
next
  case False
  let ?w = "TIMESTAMP_PAD_LENGTH cfg"
  from False have w: "0 < ?w" by simp
  have n: "nat t1 < 10 ^ ?w" "nat t2 < 10 ^ ?w" using assms by (simp_all add: nat_less_iff)
  have k1: "indexKey cfg (of_int t1) i1 = fixdec ?w (nat t1) @ CHR ''-'' # i1"
    using w assms(1,2) by (rule indexKey_fixdec)
  have k2: "indexKey cfg (of_int t2) i2 = fixdec ?w (nat t2) @ CHR ''-'' # i2"
    using w assms(3,4) by (rule indexKey_fixdec)
  have "indexKey cfg (of_int t1) i1 < indexKey cfg (of_int t2) i2 \<longleftrightarrow>
        fixdec ?w (nat t1) < fixdec ?w (nat t2) \<or>
        (fixdec ?w (nat t1) = fixdec ?w (nat t2) \<and> i1 < i2)"
    by (simp add: k1 k2 append_less_iff length_fixdec)
  also have "\<dots> \<longleftrightarrow> nat t1 < nat t2 \<or> (nat t1 = nat t2 \<and> i1 < i2)"
    by (simp add: fixdec_less_iff [OF n] fixdec_inj [OF n])
  also have "\<dots> \<longleftrightarrow> t1 < t2 \<or> (t1 = t2 \<and> i1 < i2)"
    using assms(1,3) by auto
  finally show ?thesis .
qed

lemma indexKey_eq_iff:
  assumes "0 \<le> t1" "t1 < 10 ^ TIMESTAMP_PAD_LENGTH cfg" "0 \<le> t2" "t2 < 10 ^ TIMESTAMP_PAD_LENGTH cfg"
  shows "indexKey cfg (of_int t1) i1 = indexKey cfg (of_int t2) i2 \<longleftrightarrow> t1 = t2 \<and> i1 = i2"
proof -
  have "\<not> indexKey cfg (of_int t1) i1 < indexKey cfg (of_int t2) i2 \<and> \<not> indexKey cfg (of_int t2) i2 < indexKey cfg (of_int t1) i1
        \<longleftrightarrow> t1 = t2 \<and> i1 = i2"
    unfolding indexKey_less_iff [OF assms] indexKey_less_iff [OF assms(3,4,1,2)] by auto
  then show ?thesis by (metis less_irrefl linorder_neqE)
qed

lemma indexKey_le_iff:
  assumes "0 \<le> t1" "t1 < 10 ^ TIMESTAMP_PAD_LENGTH cfg" "0 \<le> t2" "t2 < 10 ^ TIMESTAMP_PAD_LENGTH cfg"
  shows "indexKey cfg (of_int t1) i1 \<le> indexKey cfg (of_int t2) i2 \<longleftrightarrow> t1 < t2 \<or> (t1 = t2 \<and> i1 \<le> i2)"
  unfolding le_less [of "indexKey cfg (of_int t1) i1"] indexKey_less_iff [OF assms] indexKey_eq_iff [OF assms]
  by auto

text \<open>
  \<^bold>\<open>C5.\<close> For non-negative timestamps below \<open>10 ^ W\<close> (at most \<open>W\<close> digits) and any job ids, one index
  key precedes another in the order of strings exactly when its pair of timestamp and id
  precedes the other pair, by timestamp and then by id. Hence among the entries \<open>es\<close> of an
  index, the key of an entry is the least key exactly when the entry is the least pair.
\<close>

theorem indexKey_order:
  assumes "0 \<le> t1" "t1 < 10 ^ TIMESTAMP_PAD_LENGTH cfg" "0 \<le> t2" "t2 < 10 ^ TIMESTAMP_PAD_LENGTH cfg"
    and "\<forall>e \<in> set es. 0 \<le> fst e \<and> fst e < 10 ^ TIMESTAMP_PAD_LENGTH cfg"
    and "(t1, i1) \<in> set es"
  shows "(indexKey cfg (of_int t1) i1 < indexKey cfg (of_int t2) i2 \<longleftrightarrow> t1 < t2 \<or> (t1 = t2 \<and> i1 < i2)) \<and>
         ((\<forall>e \<in> set es. indexKey cfg (of_int t1) i1 \<le> indexKey cfg (of_int (fst e)) (snd e)) \<longleftrightarrow>
          (\<forall>e \<in> set es. t1 < fst e \<or> (t1 = fst e \<and> i1 \<le> snd e)))"
proof
  show "indexKey cfg (of_int t1) i1 < indexKey cfg (of_int t2) i2 \<longleftrightarrow> t1 < t2 \<or> (t1 = t2 \<and> i1 < i2)"
    using assms(1-4) by (rule indexKey_less_iff)
  have "indexKey cfg (of_int t1) i1 \<le> indexKey cfg (of_int (fst e)) (snd e) \<longleftrightarrow> t1 < fst e \<or> (t1 = fst e \<and> i1 \<le> snd e)"
    if "e \<in> set es" for e
    using assms(5) that by (intro indexKey_le_iff assms(1,2)) auto
  then show "(\<forall>e \<in> set es. indexKey cfg (of_int t1) i1 \<le> indexKey cfg (of_int (fst e)) (snd e)) \<longleftrightarrow>
          (\<forall>e \<in> set es. t1 < fst e \<or> (t1 = fst e \<and> i1 \<le> snd e))"
    by blast
qed

theorem indexKey_order_witness:
  "(0::int) \<le> 100 \<and> (100::int) < 10 ^ TIMESTAMP_PAD_LENGTH CONFIG \<and>
   (0::int) \<le> 5000 \<and> (5000::int) < 10 ^ TIMESTAMP_PAD_LENGTH CONFIG \<and>
   (100, ''b'') \<in> set [(100::int, ''b''), (5000, ''a'')] \<and>
   indexKey CONFIG (of_int 100) ''b'' < indexKey CONFIG (of_int 5000) ''a'' \<and>
   indexKey CONFIG (of_int 100) ''b'' \<le> indexKey CONFIG (of_int 100) ''b'' \<and>
   indexKey CONFIG (of_int 100) ''b'' \<le> indexKey CONFIG (of_int 5000) ''a''"
proof -
  have h1: "(0::int) \<le> 100" and h2: "(100::int) < 10 ^ TIMESTAMP_PAD_LENGTH CONFIG"
    and h3: "(0::int) \<le> 5000" and h4: "(5000::int) < 10 ^ TIMESTAMP_PAD_LENGTH CONFIG"
    by (simp_all add: CONFIG_def)
  have h5: "\<forall>e \<in> set [(100, ''b''), (5000, ''a'')]. 0 \<le> fst e \<and> fst e < (10::int) ^ TIMESTAMP_PAD_LENGTH CONFIG"
    by (simp add: CONFIG_def)
  have h6: "(100, ''b'') \<in> set [(100::int, ''b''), (5000, ''a'')]" by simp
  from indexKey_order [OF h1 h2 h3 h4 h5 h6, of "''a''"]
  have "indexKey CONFIG (of_int 100) ''b'' < indexKey CONFIG (of_int 5000) ''a''"
    and "indexKey CONFIG (of_int 100) ''b'' \<le> indexKey CONFIG (of_int 100) ''b'' \<and>
         indexKey CONFIG (of_int 100) ''b'' \<le> indexKey CONFIG (of_int 5000) ''a''"
    by simp_all
  then show ?thesis using h1 h2 h3 h4 h6 by blast
qed

section \<open>Submission\<close>

text \<open>
  \<^bold>\<open>C2.\<close> When a record with the id of the submitted name exists and has not failed, \<open>submitJob\<close>
  returns that record with \<open>isDuplicate = true\<close> and leaves the queue, jobs and index, as it
  was.
\<close>

theorem submitJob_duplicate:
  assumes "tbl_get (jobs q) (toJobId n) = Some existing" and "status existing \<noteq> Failed"
  shows "submitJob cfg now n q = ((existing, True), q)"
  using assms by (simp add: submitJob_def)

theorem submitJob_duplicate_witness:
  "tbl_get (jobs queue1) (toJobId ''Brown Pelican'') = Some pelican \<and> status pelican \<noteq> Failed \<and>
   submitJob CONFIG 200 ''Brown Pelican'' queue1 = ((pelican, True), queue1)"
proof -
  have h1: "tbl_get (jobs queue1) (toJobId ''Brown Pelican'') = Some pelican" by code_simp
  have h2: "status pelican \<noteq> Failed" by (simp add: pelican_def)
  show ?thesis using h1 h2 submitJob_duplicate [OF h1 h2, of CONFIG 200] by simp
qed

text \<open>
  \<^bold>\<open>C3.\<close> When the record with the id of the submitted name has failed, \<open>submitJob\<close> returns
  \<open>isDuplicate = false\<close> and the record reset to \<open>createdAt = availableAt = now\<close>,
  \<open>retryCount = 0\<close>, \<open>status = queued\<close> and an empty body; in the same step the jobs table
  takes that record under the id and the index takes the entry for \<open>(now, id)\<close>, and no
  other key of either table changes.
\<close>

theorem submitJob_reset:
  assumes "tbl_get (jobs q) (toJobId n) = Some existing" and "status existing = Failed"
  shows "snd (fst (submitJob cfg now n q)) = False \<and>
         fst (fst (submitJob cfg now n q)) =
           existing\<lparr>createdAt := now, availableForProcessingAt := of_int now, retryCount := 0,
                    status := Queued, job_body := []\<rparr> \<and>
         tbl_get (jobs (snd (submitJob cfg now n q))) (toJobId n) = Some (fst (fst (submitJob cfg now n q))) \<and>
         (\<forall>k. k \<noteq> toJobId n \<longrightarrow> tbl_get (jobs (snd (submitJob cfg now n q))) k = tbl_get (jobs q) k) \<and>
         tbl_get (queueIndex (snd (submitJob cfg now n q))) (indexKey cfg (of_int now) (toJobId n)) = Some (toJobId n) \<and>
         (\<forall>k. k \<noteq> indexKey cfg (of_int now) (toJobId n) \<longrightarrow>
              tbl_get (queueIndex (snd (submitJob cfg now n q))) k = tbl_get (queueIndex q) k)"
  using assms by (simp add: submitJob_def Let_def tbl_get_putSync)

theorem submitJob_reset_witness:
  "tbl_get (jobs failedQueue) (toJobId ''Brown Pelican'') = Some (pelican\<lparr>retryCount := 3, status := Failed\<rparr>) \<and>
   status (pelican\<lparr>retryCount := 3, status := Failed\<rparr>) = Failed \<and>
   ''bald-eagle'' \<noteq> toJobId ''Brown Pelican'' \<and>
   ''0000000000100-bald-eagle'' \<noteq> indexKey CONFIG (of_int 200) (toJobId ''Brown Pelican'') \<and>
   submitJob CONFIG 200 ''Brown Pelican'' failedQueue =
     ((pelican\<lparr>createdAt := 200, availableForProcessingAt := 200\<rparr>, False),
      \<lparr>jobs = [(''brown-pelican'', pelican\<lparr>createdAt := 200, availableForProcessingAt := 200\<rparr>)],
       queueIndex = [(''0000000000200-brown-pelican'', ''brown-pelican'')]\<rparr>) \<and>
   tbl_get (jobs (snd (submitJob CONFIG 200 ''Brown Pelican'' failedQueue))) ''bald-eagle'' =
     tbl_get (jobs failedQueue) ''bald-eagle'' \<and>
   tbl_get (queueIndex (snd (submitJob CONFIG 200 ''Brown Pelican'' failedQueue))) ''0000000000100-bald-eagle'' =
     tbl_get (queueIndex failedQueue) ''0000000000100-bald-eagle''"
proof -
  have h1: "tbl_get (jobs failedQueue) (toJobId ''Brown Pelican'') = Some (pelican\<lparr>retryCount := 3, status := Failed\<rparr>)"
    by code_simp
  have h2: "status (pelican\<lparr>retryCount := 3, status := Failed\<rparr>) = Failed" by simp
  have h3: "''bald-eagle'' \<noteq> toJobId ''Brown Pelican''" by code_simp
  have h4: "''0000000000100-bald-eagle'' \<noteq> indexKey CONFIG (of_int 200) (toJobId ''Brown Pelican'')" by code_simp
  have h5: "submitJob CONFIG 200 ''Brown Pelican'' failedQueue =
     ((pelican\<lparr>createdAt := 200, availableForProcessingAt := 200\<rparr>, False),
      \<lparr>jobs = [(''brown-pelican'', pelican\<lparr>createdAt := 200, availableForProcessingAt := 200\<rparr>)],
       queueIndex = [(''0000000000200-brown-pelican'', ''brown-pelican'')]\<rparr>)" by code_simp
  from submitJob_reset [OF h1 h2, of CONFIG 200] h3 h4
  have "tbl_get (jobs (snd (submitJob CONFIG 200 ''Brown Pelican'' failedQueue))) ''bald-eagle'' =
          tbl_get (jobs failedQueue) ''bald-eagle''"
    and "tbl_get (queueIndex (snd (submitJob CONFIG 200 ''Brown Pelican'' failedQueue))) ''0000000000100-bald-eagle'' =
          tbl_get (queueIndex failedQueue) ''0000000000100-bald-eagle''"
    by blast+
  then show ?thesis using h1 h2 h3 h4 h5 by blast
qed

section \<open>Claiming\<close>

lemma claimJob_None:
  "getRange_limit1 (queueIndex q) = None \<Longrightarrow> claimJob cfg now q = (None, q)"
  by (simp add: claimJob_def)

lemma claimJob_future:
  "getRange_limit1 (queueIndex q) = Some (key, value) \<Longrightarrow>
   js_gt (parseInt (take (TIMESTAMP_PAD_LENGTH cfg) key)) now \<Longrightarrow> claimJob cfg now q = (None, q)"
  by (simp add: claimJob_def)

lemma claimJob_Some:
  assumes "claimJob cfg now q = (Some j, q')"
  obtains key "value" job where "getRange_limit1 (queueIndex q) = Some (key, value)"
    and "\<not> js_gt (parseInt (take (TIMESTAMP_PAD_LENGTH cfg) key)) now"
    and "tbl_get (jobs q) value = Some job" and "j = job\<lparr>status := Processing\<rparr>"
    and "q' = q\<lparr>queueIndex := removeSync key (queueIndex q), jobs := putSync (job_id job) j (jobs q)\<rparr>"
  using assms
  by (auto simp: claimJob_def Let_def split: option.splits if_splits prod.splits)

text \<open>What the test of \<open>claimJob\<close> gives for the job it returns, when the head key is the
  index key of that job: the integer part of \<open>availableForProcessingAt\<close> is not in the
  future. For an integer \<open>availableForProcessingAt\<close> that is eligibility.\<close>

lemma claimJob_floor:
  assumes "claimJob cfg now q = (Some j, q')"
    and "getRange_limit1 (queueIndex q) = Some (key, value)"
    and "key = indexKey cfg (availableForProcessingAt j) value"
    and "0 < TIMESTAMP_PAD_LENGTH cfg" and "0 \<le> availableForProcessingAt j"
    and "\<lfloor>availableForProcessingAt j\<rfloor> < 10 ^ TIMESTAMP_PAD_LENGTH cfg"
  shows "\<lfloor>availableForProcessingAt j\<rfloor> \<le> now"
proof -
  have "\<not> js_gt (parseInt (take (TIMESTAMP_PAD_LENGTH cfg) key)) now"
    using assms(1,2) by (auto elim!: claimJob_Some)
  moreover have "parseInt (take (TIMESTAMP_PAD_LENGTH cfg) key) = Some \<lfloor>availableForProcessingAt j\<rfloor>"
    using assms(3-6) by (simp add: parseInt_indexKey_floor)
  ultimately show ?thesis by (simp add: js_gt_def)
qed

lemma claimJob_eligible_integer:
  assumes "claimJob cfg now q = (Some j, q')"
    and "getRange_limit1 (queueIndex q) = Some (key, value)"
    and "key = indexKey cfg (availableForProcessingAt j) value"
    and "availableForProcessingAt j = of_int t"
    and "0 < TIMESTAMP_PAD_LENGTH cfg" and "0 \<le> t" and "t < 10 ^ TIMESTAMP_PAD_LENGTH cfg"
  shows "availableForProcessingAt j \<le> of_int now"
  using claimJob_floor [OF assms(1-3)] assms(4-7) by simp

text \<open>Claiming from a queue that holds one job and its index entry.\<close>

lemma claimJob_single:
  assumes "0 < TIMESTAMP_PAD_LENGTH cfg" and "0 \<le> x" and "\<lfloor>x\<rfloor> < 10 ^ TIMESTAMP_PAD_LENGTH cfg"
    and "\<lfloor>x\<rfloor> \<le> now" and "job_id job = jobId"
  shows "claimJob cfg now \<lparr>jobs = [(jobId, job)], queueIndex = [(indexKey cfg x jobId, jobId)]\<rparr> =
           (Some (job\<lparr>status := Processing\<rparr>),
            \<lparr>jobs = [(jobId, job\<lparr>status := Processing\<rparr>)], queueIndex = []\<rparr>)"
  using assms
  by (simp add: claimJob_def getRange_limit1_def parseInt_indexKey_floor js_gt_def tbl_get_def
      removeSync_def Let_def)

text \<open>
  \<^bold>\<open>C6.\<close> When the head entry of the index is eligible and the job it names has no record,
  \<open>claimJob\<close> returns nothing, leaves the jobs table as it was, and removes that one entry
  from the index: the index before is the head entry followed by the index after.
\<close>

theorem claimJob_orphan:
  assumes "table_ok (queueIndex q)"
    and "getRange_limit1 (queueIndex q) = Some (key, value)"
    and "\<not> js_gt (parseInt (take (TIMESTAMP_PAD_LENGTH cfg) key)) now"
    and "tbl_get (jobs q) value = None"
  shows "fst (claimJob cfg now q) = None \<and>
         jobs (snd (claimJob cfg now q)) = jobs q \<and>
         queueIndex q = (key, value) # queueIndex (snd (claimJob cfg now q))"
proof -
  from assms(2) obtain rest where idx: "queueIndex q = (key, value) # rest"
    by (auto simp: getRange_limit1_def split: list.splits)
  with assms(1) have "removeSync key (queueIndex q) = rest" by (simp add: removeSync_head)
  then show ?thesis using assms(2-4) idx by (simp add: claimJob_def Let_def)
qed

theorem claimJob_orphan_witness:
  "table_ok (queueIndex orphanQueue) \<and>
   getRange_limit1 (queueIndex orphanQueue) = Some (''0000000000050-ghost'', ''ghost'') \<and>
   \<not> js_gt (parseInt (take (TIMESTAMP_PAD_LENGTH CONFIG) ''0000000000050-ghost'')) 200 \<and>
   tbl_get (jobs orphanQueue) ''ghost'' = None \<and>
   claimJob CONFIG 200 orphanQueue = (None, queue1)"
proof -
  have h1: "table_ok (queueIndex orphanQueue)" by (simp add: table_ok_def orphanQueue_def)
  have h2: "getRange_limit1 (queueIndex orphanQueue) = Some (''0000000000050-ghost'', ''ghost'')" by code_simp
  have h3: "\<not> js_gt (parseInt (take (TIMESTAMP_PAD_LENGTH CONFIG) ''0000000000050-ghost'')) 200" by code_simp
  have h4: "tbl_get (jobs orphanQueue) ''ghost'' = None" by code_simp
  have h5: "jobs orphanQueue = jobs queue1" "tl (queueIndex orphanQueue) = queueIndex queue1"
    by (simp_all add: orphanQueue_def queue1_def)
  from claimJob_orphan [OF h1 h2 h3 h4]
  have "fst (claimJob CONFIG 200 orphanQueue) = None"
    and "jobs (snd (claimJob CONFIG 200 orphanQueue)) = jobs queue1"
    and "queueIndex (snd (claimJob CONFIG 200 orphanQueue)) = queueIndex queue1"
    using h5 by (auto simp del: One_nat_def)
  then have "claimJob CONFIG 200 orphanQueue = (None, queue1)"
    by (metis Queue.equality prod.collapse old.unit.exhaust)
  then show ?thesis using h1 h2 h3 h4 by blast
qed

section \<open>Completing and failing\<close>

text \<open>
  \<^bold>\<open>C10.\<close> For a job that has a record, whatever its status, \<open>completeJob\<close> returns and stores the
  record with only \<open>status\<close> (now completed) and \<open>body\<close> changed, \<open>failJob\<close> the record with
  only \<open>status\<close> (now failed) changed; no other record changes and the index is the same
  list of entries afterwards, so the entry of a job that was still queued stays.
\<close>

theorem completeJob_failJob_frame:
  assumes "tbl_get (jobs q) jobId = Some job"
  shows "fst (completeJob jobId body q) = Some (job\<lparr>status := Completed, job_body := body\<rparr>) \<and>
         tbl_get (jobs (snd (completeJob jobId body q))) jobId = Some (job\<lparr>status := Completed, job_body := body\<rparr>) \<and>
         (\<forall>k. k \<noteq> jobId \<longrightarrow> tbl_get (jobs (snd (completeJob jobId body q))) k = tbl_get (jobs q) k) \<and>
         queueIndex (snd (completeJob jobId body q)) = queueIndex q \<and>
         fst (failJob jobId q) = Some (job\<lparr>status := Failed\<rparr>) \<and>
         tbl_get (jobs (snd (failJob jobId q))) jobId = Some (job\<lparr>status := Failed\<rparr>) \<and>
         (\<forall>k. k \<noteq> jobId \<longrightarrow> tbl_get (jobs (snd (failJob jobId q))) k = tbl_get (jobs q) k) \<and>
         queueIndex (snd (failJob jobId q)) = queueIndex q"
  using assms by (simp add: completeJob_def failJob_def Let_def tbl_get_putSync)

theorem completeJob_failJob_frame_witness:
  "tbl_get (jobs queue1) ''brown-pelican'' = Some pelican \<and>
   ''bald-eagle'' \<noteq> ''brown-pelican'' \<and>
   fst (completeJob ''brown-pelican'' [(''research'', JStr ''x'')] queue1) =
     Some (pelican\<lparr>status := Completed, job_body := [(''research'', JStr ''x'')]\<rparr>) \<and>
   tbl_get (jobs (snd (completeJob ''brown-pelican'' [(''research'', JStr ''x'')] queue1))) ''bald-eagle'' =
     tbl_get (jobs queue1) ''bald-eagle'' \<and>
   queueIndex (snd (completeJob ''brown-pelican'' [(''research'', JStr ''x'')] queue1)) =
     [(''0000000000100-brown-pelican'', ''brown-pelican'')] \<and>
   fst (failJob ''brown-pelican'' queue1) = Some (pelican\<lparr>status := Failed\<rparr>) \<and>
   tbl_get (jobs (snd (failJob ''brown-pelican'' queue1))) ''bald-eagle'' = tbl_get (jobs queue1) ''bald-eagle'' \<and>
   queueIndex (snd (failJob ''brown-pelican'' queue1)) = [(''0000000000100-brown-pelican'', ''brown-pelican'')]"
proof -
  have h1: "tbl_get (jobs queue1) ''brown-pelican'' = Some pelican" by code_simp
  have h2: "''bald-eagle'' \<noteq> ''brown-pelican''" by simp
  have h3: "queueIndex queue1 = [(''0000000000100-brown-pelican'', ''brown-pelican'')]"
    by (simp add: queue1_def)
  show ?thesis
    using completeJob_failJob_frame [OF h1, of "[(''research'', JStr ''x'')]"] h1 h2 h3 by metis
qed

section \<open>Metrics\<close>

lemma foldl_scanEntry_completed:
  "n_completed (foldl scanEntry s es) = n_completed s + length (filter (\<lambda>e. action e = JOB_COMPLETED) es)"
  by (induction es arbitrary: s) (auto simp: scanEntry_def Let_def split: ActionType.splits)

lemma foldl_scanEntry_failed:
  "n_failed (foldl scanEntry s es) = n_failed s + length (filter (\<lambda>e. action e = JOB_FAILED) es)"
  by (induction es arbitrary: s) (auto simp: scanEntry_def Let_def split: ActionType.splits)

lemma foldl_scanEntry_submitted:
  "n_submitted (foldl scanEntry s es) = n_submitted s + length (filter (\<lambda>e. action e = JOB_SUBMITTED) es)"
  by (induction es arbitrary: s) (auto simp: scanEntry_def Let_def split: ActionType.splits)

text \<open>
  \<^bold>\<open>C7.\<close> When the entries that \<open>getMetrics\<close> scans hold exactly \<open>c\<close> job-completed, \<open>f\<close> job-failed
  and \<open>s\<close> job-submitted events, it returns \<open>completed = c\<close>, \<open>failed = f\<close>, \<open>submitted = s\<close> and
  \<open>failureRate = f / (c + f)\<close>, or 0 when \<open>c + f = 0\<close>: the rate does not depend on \<open>s\<close>. The
  quotient is the exact rational.
\<close>

theorem getMetrics_failureRate:
  assumes "length (filter (\<lambda>e. action e = JOB_COMPLETED) (scanned cfg now (effectiveWindow cfg windowMs) obs)) = c"
    and "length (filter (\<lambda>e. action e = JOB_FAILED) (scanned cfg now (effectiveWindow cfg windowMs) obs)) = f"
    and "length (filter (\<lambda>e. action e = JOB_SUBMITTED) (scanned cfg now (effectiveWindow cfg windowMs) obs)) = s"
  shows "completed (getMetrics cfg now windowMs obs) = c \<and>
         failed (getMetrics cfg now windowMs obs) = f \<and>
         submitted (getMetrics cfg now windowMs obs) = s \<and>
         failureRate (getMetrics cfg now windowMs obs) = (if c + f = 0 then 0 else of_nat f / of_nat (c + f))"
proof -
  from assms have c: "c = length (filter (\<lambda>e. action e = JOB_COMPLETED) (scanned cfg now (effectiveWindow cfg windowMs) obs))"
    and f: "f = length (filter (\<lambda>e. action e = JOB_FAILED) (scanned cfg now (effectiveWindow cfg windowMs) obs))"
    and s: "s = length (filter (\<lambda>e. action e = JOB_SUBMITTED) (scanned cfg now (effectiveWindow cfg windowMs) obs))"
    by simp_all
  show ?thesis
    unfolding c f s
    by (simp add: getMetrics_def Let_def foldl_scanEntry_completed foldl_scanEntry_failed
        foldl_scanEntry_submitted)
qed

theorem getMetrics_failureRate_witness:
  "length (filter (\<lambda>e. action e = JOB_COMPLETED) (scanned testConfig 200 (effectiveWindow testConfig None) exampleLog)) = 1 \<and>
   length (filter (\<lambda>e. action e = JOB_FAILED) (scanned testConfig 200 (effectiveWindow testConfig None) exampleLog)) = 1 \<and>
   length (filter (\<lambda>e. action e = JOB_SUBMITTED) (scanned testConfig 200 (effectiveWindow testConfig None) exampleLog)) = 2 \<and>
   completed (getMetrics testConfig 200 None exampleLog) = 1 \<and>
   failed (getMetrics testConfig 200 None exampleLog) = 1 \<and>
   failureRate (getMetrics testConfig 200 None exampleLog) = 1 / 2"
proof -
  have h1: "length (filter (\<lambda>e. action e = JOB_COMPLETED) (scanned testConfig 200 (effectiveWindow testConfig None) exampleLog)) = 1"
    by code_simp
  have h2: "length (filter (\<lambda>e. action e = JOB_FAILED) (scanned testConfig 200 (effectiveWindow testConfig None) exampleLog)) = 1"
    by code_simp
  have h3: "length (filter (\<lambda>e. action e = JOB_SUBMITTED) (scanned testConfig 200 (effectiveWindow testConfig None) exampleLog)) = 2"
    by code_simp
  show ?thesis using getMetrics_failureRate [OF h1 h2 h3] h1 h2 h3 by simp
qed


section \<open>Admission\<close>





section \<open>Bounded retries\<close>

lemma invI:
  assumes "\<And>k j. tbl_get (jobs q) k = Some j \<Longrightarrow> job_id j = k \<and> retryCount j \<le> MAX_RETRIES cfg"
    and "\<And>i j. fl i = Some j \<Longrightarrow> tbl_get (jobs q) (job_id j) = Some j \<and> status j = Processing"
    and "\<And>i i' j j'. fl i = Some j \<Longrightarrow> fl i' = Some j' \<Longrightarrow> job_id j = job_id j' \<Longrightarrow> i = i'"
    and "\<And>e. e \<in> set (queueIndex q) \<Longrightarrow> \<exists>j. tbl_get (jobs q) (snd e) = Some j \<and> status j = Queued"
    and "distinct (map snd (queueIndex q))"
  shows "inv cfg q fl"
  unfolding inv_def using assms by blast

lemma inv_jobs: "inv cfg q fl \<Longrightarrow> tbl_get (jobs q) k = Some j \<Longrightarrow> job_id j = k \<and> retryCount j \<le> MAX_RETRIES cfg"
  unfolding inv_def by blast

lemma inv_held: "inv cfg q fl \<Longrightarrow> fl i = Some j \<Longrightarrow> tbl_get (jobs q) (job_id j) = Some j \<and> status j = Processing"
  unfolding inv_def by blast

lemma inv_held_once: "inv cfg q fl \<Longrightarrow> fl i = Some j \<Longrightarrow> fl i' = Some j' \<Longrightarrow> job_id j = job_id j' \<Longrightarrow> i = i'"
  unfolding inv_def by blast

lemma inv_index: "inv cfg q fl \<Longrightarrow> e \<in> set (queueIndex q) \<Longrightarrow> \<exists>j. tbl_get (jobs q) (snd e) = Some j \<and> status j = Queued"
  unfolding inv_def by blast

lemma inv_distinct: "inv cfg q fl \<Longrightarrow> distinct (map snd (queueIndex q))"
  unfolding inv_def by blast

lemma in_putSync: "e \<in> set (putSync k v t) \<Longrightarrow> e = (k, v) \<or> e \<in> set t"
  using set_putSync [of k v t] by auto

lemma distinct_putSync:
  "distinct (map snd t) \<Longrightarrow> v \<notin> snd ` set t \<Longrightarrow> distinct (map snd (putSync k v t))"
proof (induction t)
  case Nil
  then show ?case by simp
next
  case (Cons e t)
  obtain k' v' where e: "e = (k', v')" by (cases e)
  from Cons.prems have d: "distinct (map snd t)" and v': "v' \<notin> snd ` set t"
    and v: "v \<notin> snd ` set t" and ne: "v \<noteq> v'"
    by (auto simp: e)
  have "v' \<notin> snd ` set (putSync k v t)"
    using v' ne in_putSync [of _ k v t] by force
  then show ?case using d v' v ne Cons.IH [OF d v] by (simp add: e)
qed

lemma in_removeSync: "e \<in> set (removeSync k t) \<longleftrightarrow> e \<in> set t \<and> fst e \<noteq> k"
  by (auto simp: removeSync_def)

lemma distinct_removeSync: "distinct (map snd t) \<Longrightarrow> distinct (map snd (removeSync k t))"
  by (simp add: removeSync_def distinct_map_filter)

lemma distinct_snd_key: "distinct (map snd t) \<Longrightarrow> (k, v) \<in> set t \<Longrightarrow> (k', v) \<in> set t \<Longrightarrow> k = k'"
  by (metis distinct_map inj_onD snd_conv fst_conv)

text \<open>Writing a queued record under an id that no index entry names and no worker holds,
  together with an index entry for it.\<close>

lemma inv_enqueue:
  assumes i: "inv cfg q fl"
    and job: "job_id job = jobId" "retryCount job \<le> MAX_RETRIES cfg" "status job = Queued"
    and fresh: "jobId \<notin> snd ` set (queueIndex q)"
    and nofl: "\<And>i j. fl i = Some j \<Longrightarrow> job_id j \<noteq> jobId"
  shows "inv cfg (q\<lparr>jobs := putSync jobId job (jobs q),
                    queueIndex := putSync key jobId (queueIndex q)\<rparr>) fl"
proof (rule invI)
  let ?q = "q\<lparr>jobs := putSync jobId job (jobs q), queueIndex := putSync key jobId (queueIndex q)\<rparr>"
  fix k j assume "tbl_get (jobs ?q) k = Some j"
  then show "job_id j = k \<and> retryCount j \<le> MAX_RETRIES cfg"
    using job inv_jobs [OF i, of k j] by (simp add: tbl_get_putSync split: if_splits)
next
  let ?q = "q\<lparr>jobs := putSync jobId job (jobs q), queueIndex := putSync key jobId (queueIndex q)\<rparr>"
  fix w j assume "fl w = Some j"
  then show "tbl_get (jobs ?q) (job_id j) = Some j \<and> status j = Processing"
    using nofl [of w j] inv_held [OF i, of w j] by (simp add: tbl_get_putSync)
next
  fix w w' j j' assume "fl w = Some j" "fl w' = Some j'" "job_id j = job_id j'"
  then show "w = w'" by (rule inv_held_once [OF i])
next
  let ?q = "q\<lparr>jobs := putSync jobId job (jobs q), queueIndex := putSync key jobId (queueIndex q)\<rparr>"
  fix e assume "e \<in> set (queueIndex ?q)"
  then have "e = (key, jobId) \<or> e \<in> set (queueIndex q)" by (auto dest: in_putSync)
  then show "\<exists>j. tbl_get (jobs ?q) (snd e) = Some j \<and> status j = Queued"
  proof
    assume "e = (key, jobId)"
    then show ?thesis using job by (simp add: tbl_get_putSync)
  next
    assume e: "e \<in> set (queueIndex q)"
    then have "snd e \<noteq> jobId" using fresh by auto
    then show ?thesis using inv_index [OF i e] by (simp add: tbl_get_putSync)
  qed
next
  show "distinct (map snd (queueIndex (q\<lparr>jobs := putSync jobId job (jobs q),
          queueIndex := putSync key jobId (queueIndex q)\<rparr>)))"
    using inv_distinct [OF i] fresh by (simp add: distinct_putSync)
qed

lemma inv_submitJob:
  assumes i: "inv cfg q fl"
  shows "inv cfg (snd (submitJob cfg now n q)) fl"
proof (cases "tbl_get (jobs q) (toJobId n)")
  case None
  have fresh: "toJobId n \<notin> snd ` set (queueIndex q)"
    using inv_index [OF i] None by force
  have nofl: "\<And>w j. fl w = Some j \<Longrightarrow> job_id j \<noteq> toJobId n"
    using inv_held [OF i] None by force
  show ?thesis
    using None by (simp add: submitJob_def Let_def inv_enqueue [OF i _ _ _ fresh nofl])
next
  case (Some existing)
  show ?thesis
  proof (cases "status existing = Failed")
    case False
    then show ?thesis using i Some by (simp add: submitJob_def)
  next
    case True
    have fresh: "toJobId n \<notin> snd ` set (queueIndex q)"
      using inv_index [OF i] Some True by force
    have nofl: "\<And>w j. fl w = Some j \<Longrightarrow> job_id j \<noteq> toJobId n"
      using inv_held [OF i] Some True by force
    have idk: "job_id existing = toJobId n" using inv_jobs [OF i Some] by simp
    show ?thesis
      using Some True idk by (simp add: submitJob_def Let_def inv_enqueue [OF i _ _ _ fresh nofl])
  qed
qed


lemma inv_release: "inv cfg q fl \<Longrightarrow> inv cfg q (fl(i := None))"
  unfolding inv_def by (simp split: if_splits)

lemma inv_remove:
  assumes i: "inv cfg q fl"
  shows "inv cfg (q\<lparr>queueIndex := removeSync k (queueIndex q)\<rparr>) fl"
proof (rule invI)
  fix k' j assume "tbl_get (jobs (q\<lparr>queueIndex := removeSync k (queueIndex q)\<rparr>)) k' = Some j"
  then show "job_id j = k' \<and> retryCount j \<le> MAX_RETRIES cfg" using inv_jobs [OF i, of k' j] by simp
next
  fix w j assume "fl w = Some j"
  then show "tbl_get (jobs (q\<lparr>queueIndex := removeSync k (queueIndex q)\<rparr>)) (job_id j) = Some j \<and>
             status j = Processing"
    using inv_held [OF i, of w j] by simp
next
  fix w w' j j' assume "fl w = Some j" "fl w' = Some j'" "job_id j = job_id j'"
  then show "w = w'" by (rule inv_held_once [OF i])
next
  fix e assume "e \<in> set (queueIndex (q\<lparr>queueIndex := removeSync k (queueIndex q)\<rparr>))"
  then have "e \<in> set (queueIndex q)" by (simp add: in_removeSync)
  then show "\<exists>j. tbl_get (jobs (q\<lparr>queueIndex := removeSync k (queueIndex q)\<rparr>)) (snd e) = Some j \<and> status j = Queued"
    using inv_index [OF i] by simp
next
  show "distinct (map snd (queueIndex (q\<lparr>queueIndex := removeSync k (queueIndex q)\<rparr>)))"
    using inv_distinct [OF i] by (simp add: distinct_removeSync)
qed

text \<open>Writing a record that is not queued under an id that no index entry names and no
  worker holds.\<close>

lemma inv_store:
  assumes i: "inv cfg q fl"
    and job: "job_id job = jobId" "retryCount job \<le> MAX_RETRIES cfg"
    and fresh: "jobId \<notin> snd ` set (queueIndex q)"
    and nofl: "\<And>i j. fl i = Some j \<Longrightarrow> job_id j \<noteq> jobId"
  shows "inv cfg (q\<lparr>jobs := putSync jobId job (jobs q)\<rparr>) fl"
proof (rule invI)
  fix k j assume "tbl_get (jobs (q\<lparr>jobs := putSync jobId job (jobs q)\<rparr>)) k = Some j"
  then show "job_id j = k \<and> retryCount j \<le> MAX_RETRIES cfg"
    using job inv_jobs [OF i, of k j] by (simp add: tbl_get_putSync split: if_splits)
next
  fix w j assume "fl w = Some j"
  then show "tbl_get (jobs (q\<lparr>jobs := putSync jobId job (jobs q)\<rparr>)) (job_id j) = Some j \<and> status j = Processing"
    using nofl [of w j] inv_held [OF i, of w j] by (simp add: tbl_get_putSync)
next
  fix w w' j j' assume "fl w = Some j" "fl w' = Some j'" "job_id j = job_id j'"
  then show "w = w'" by (rule inv_held_once [OF i])
next
  fix e assume e: "e \<in> set (queueIndex (q\<lparr>jobs := putSync jobId job (jobs q)\<rparr>))"
  then have "snd e \<noteq> jobId" using fresh by auto
  then show "\<exists>j. tbl_get (jobs (q\<lparr>jobs := putSync jobId job (jobs q)\<rparr>)) (snd e) = Some j \<and> status j = Queued"
    using inv_index [OF i, of e] e by (simp add: tbl_get_putSync)
next
  show "distinct (map snd (queueIndex (q\<lparr>jobs := putSync jobId job (jobs q)\<rparr>)))"
    using inv_distinct [OF i] by simp
qed

text \<open>What holds of a job a worker holds: its record is the one held, no index entry names
  it, and no other worker holds it.\<close>

lemma held_facts:
  assumes i: "inv cfg q fl" and h: "fl w = Some j"
  shows "tbl_get (jobs q) (job_id j) = Some j"
    and "retryCount j \<le> MAX_RETRIES cfg"
    and "job_id j \<notin> snd ` set (queueIndex q)"
    and "\<And>w' j'. (fl(w := None)) w' = Some j' \<Longrightarrow> job_id j' \<noteq> job_id j"
proof -
  show st: "tbl_get (jobs q) (job_id j) = Some j" using inv_held [OF i h] by simp
  show "retryCount j \<le> MAX_RETRIES cfg" using inv_jobs [OF i st] by simp
  show "job_id j \<notin> snd ` set (queueIndex q)"
  proof
    assume "job_id j \<in> snd ` set (queueIndex q)"
    then obtain e where "e \<in> set (queueIndex q)" "snd e = job_id j" by auto
    then show False using inv_index [OF i, of e] st inv_held [OF i h] by simp
  qed
  fix w' j' assume "(fl(w := None)) w' = Some j'"
  then have "w' \<noteq> w" "fl w' = Some j'" by (auto split: if_splits)
  then show "job_id j' \<noteq> job_id j" using inv_held_once [OF i _ h, of w' j'] by auto
qed

lemma inv_completeJob:
  assumes i: "inv cfg q fl" and h: "fl w = Some j"
  shows "inv cfg (snd (completeJob (job_id j) body q)) (fl(w := None))"
proof -
  have "inv cfg (q\<lparr>jobs := putSync (job_id j) (j\<lparr>status := Completed, job_body := body\<rparr>) (jobs q)\<rparr>)
          (fl(w := None))"
    using held_facts [OF i h] by (intro inv_store [OF inv_release [OF i]]) simp_all
  then show ?thesis using held_facts(1) [OF i h] by (simp add: completeJob_def Let_def)
qed

lemma inv_failJob:
  assumes i: "inv cfg q fl" and h: "fl w = Some j"
  shows "inv cfg (snd (failJob (job_id j) q)) (fl(w := None))"
proof -
  have "inv cfg (q\<lparr>jobs := putSync (job_id j) (j\<lparr>status := Failed\<rparr>) (jobs q)\<rparr>) (fl(w := None))"
    using held_facts [OF i h] by (intro inv_store [OF inv_release [OF i]]) simp_all
  then show ?thesis using held_facts(1) [OF i h] by (simp add: failJob_def Let_def)
qed

lemma inv_retryJob:
  assumes i: "inv cfg q fl" and h: "fl w = Some j" and r: "retryCount j < MAX_RETRIES cfg"
  shows "inv cfg (snd (retryJob cfg (job_id j) nextAvailableAt q)) (fl(w := None))"
proof -
  have "inv cfg (q\<lparr>jobs := putSync (job_id j)
                    (j\<lparr>status := Queued, retryCount := retryCount j + 1,
                       availableForProcessingAt := nextAvailableAt\<rparr>) (jobs q),
                  queueIndex := putSync (indexKey cfg nextAvailableAt (job_id j)) (job_id j) (queueIndex q)\<rparr>)
          (fl(w := None))"
    using held_facts [OF i h] r by (intro inv_enqueue [OF inv_release [OF i]]) simp_all
  then show ?thesis using held_facts(1) [OF i h] by (simp add: retryJob_def Let_def)
qed

lemma inv_claimJob:
  assumes i: "inv cfg q fl" and idle: "fl w = None" and c: "claimJob cfg now q = (r, q')"
  shows "inv cfg q' (fl(w := r))"
proof (cases r)
  case None
  have same: "fl(w := None) = fl" using idle by auto
  from c None have "q' = q \<or> (\<exists>k. q' = q\<lparr>queueIndex := removeSync k (queueIndex q)\<rparr>)"
    by (auto simp: claimJob_def Let_def split: option.splits if_splits prod.splits)
  then show ?thesis using i inv_remove [OF i] None same by auto
next
  case (Some j)
  from c [unfolded Some] obtain key v job where
    hd: "getRange_limit1 (queueIndex q) = Some (key, v)"
    and st: "tbl_get (jobs q) v = Some job" and j: "j = job\<lparr>status := Processing\<rparr>"
    and q': "q' = q\<lparr>queueIndex := removeSync key (queueIndex q), jobs := putSync (job_id job) j (jobs q)\<rparr>"
    by (rule claimJob_Some)
  from hd have mem: "(key, v) \<in> set (queueIndex q)"
    by (auto simp: getRange_limit1_def split: list.splits)
  have idv: "job_id job = v" and rc: "retryCount job \<le> MAX_RETRIES cfg"
    using inv_jobs [OF i st] by simp_all
  have queued: "status job = Queued" using inv_index [OF i mem] st by simp
  have other: "job_id j' \<noteq> v" if "fl w' = Some j'" for w' j'
    using inv_held [OF i that] st queued by auto
  show ?thesis
  proof (rule invI)
    fix k j' assume "tbl_get (jobs q') k = Some j'"
    then show "job_id j' = k \<and> retryCount j' \<le> MAX_RETRIES cfg"
      using idv rc inv_jobs [OF i, of k j'] by (auto simp: q' j tbl_get_putSync split: if_splits)
  next
    fix w' j' assume a: "(fl(w := r)) w' = Some j'"
    show "tbl_get (jobs q') (job_id j') = Some j' \<and> status j' = Processing"
    proof (cases "w' = w")
      case True
      then have "j' = j" using a by (simp add: Some)
      then show ?thesis using idv by (simp add: q' j tbl_get_putSync)
    next
      case False
      then have f: "fl w' = Some j'" using a by simp
      then show ?thesis using other [OF f] inv_held [OF i f] idv by (simp add: q' tbl_get_putSync)
    qed
  next
    fix w1 w2 j1 j2
    assume a: "(fl(w := r)) w1 = Some j1" "(fl(w := r)) w2 = Some j2" "job_id j1 = job_id j2"
    have jv: "job_id j = v" using idv j by simp
    show "w1 = w2"
    proof (cases "w1 = w"; cases "w2 = w")
      assume "w1 = w" "w2 = w" then show ?thesis by simp
    next
      assume "w1 = w" "w2 \<noteq> w"
      then show ?thesis using a other [of w2 j2] jv by (simp add: Some)
    next
      assume "w1 \<noteq> w" "w2 = w"
      then show ?thesis using a other [of w1 j1] jv by (simp add: Some)
    next
      assume "w1 \<noteq> w" "w2 \<noteq> w"
      then show ?thesis using a inv_held_once [OF i, of w1 j1 w2 j2] by simp
    qed
  next
    fix e assume "e \<in> set (queueIndex q')"
    then have e: "e \<in> set (queueIndex q)" and k: "fst e \<noteq> key" by (simp_all add: q' in_removeSync)
    have "snd e \<noteq> v"
    proof
      assume "snd e = v"
      then have "(fst e, v) \<in> set (queueIndex q)" using e by (metis prod.collapse)
      then show False using distinct_snd_key [OF inv_distinct [OF i] _ mem] k by blast
    qed
    then show "\<exists>j. tbl_get (jobs q') (snd e) = Some j \<and> status j = Queued"
      using inv_index [OF i e] idv by (simp add: q' tbl_get_putSync)
  next
    show "distinct (map snd (queueIndex q'))"
      using inv_distinct [OF i] by (simp add: q' distinct_removeSync)
  qed
qed


lemma postBird_queue:
  "fst (snd (postBird cfg ins body (q, obs))) = q \<or>
   (\<exists>n. fst (snd (postBird cfg ins body (q, obs))) = snd (submitJob cfg (submitNow ins) n q))"
  by (auto simp: postBird_def postBirdHandler_def Let_def)

lemma inv_initial: "inv cfg (queue initial) (inflight initial)"
  by (simp add: inv_def initial_def emptyQueue_def tbl_get_def)

lemma inv_step:
  assumes i: "inv cfg (queue s) (inflight s)"
  shows "inv cfg (queue (step cfg s e)) (inflight (step cfg s e))"
proof (cases e)
  case (Start workerId st)
  then show ?thesis using i by (simp add: step_def)
next
  case (Post ins body)
  show ?thesis
    using postBird_queue [of cfg ins body "queue s" "observer s"] i inv_submitJob [OF i]
    by (auto simp: step_def Post Let_def)
next
  case (Tick w workerId now st)
  show ?thesis
  proof (cases "inflight s w")
    case (Some job)
    then show ?thesis using i by (simp add: step_def Tick)
  next
    case None
    obtain r q' where c: "claimJob cfg now (queue s) = (r, q')" by (cases "claimJob cfg now (queue s)")
    have "inv cfg q' ((inflight s)(w := r))" using i None c by (rule inv_claimJob)
    then show ?thesis using None c
      by (cases r) (simp_all add: step_def Tick pollClaim_def Let_def)
  qed
next
  case (Settled w workerId result now random st)
  show ?thesis
  proof (cases "inflight s w")
    case None
    then show ?thesis using i by (simp add: step_def Settled)
  next
    case (Some job)
    show ?thesis
    proof (cases result)
      case (Resolved body)
      then show ?thesis using Some inv_completeJob [OF i Some]
        by (simp add: step_def Settled pollSettle_def Let_def)
    next
      case (Rejected err)
      then show ?thesis using Some inv_failJob [OF i Some] inv_retryJob [OF i Some]
        by (simp add: step_def Settled pollSettle_def Let_def)
    qed
  qed
qed

lemma inv_run: "inv cfg (queue (run cfg es)) (inflight (run cfg es))"
proof (induction es rule: rev_induct)
  case Nil
  then show ?case by (simp add: run_def inv_initial)
next
  case (snoc e es)
  then show ?case using inv_step [of cfg "run cfg es" e] by (simp add: run_def)
qed

lemma submitJob_retryCount:
  "tbl_get (jobs q) k = Some j \<Longrightarrow> tbl_get (jobs (snd (submitJob cfg now n q))) k = Some j' \<Longrightarrow>
   retryCount j' \<le> retryCount j"
  by (auto simp: submitJob_def Let_def tbl_get_putSync split: option.splits if_splits)

lemma claimJob_retryCount:
  assumes ids: "\<And>k j. tbl_get (jobs q) k = Some j \<Longrightarrow> job_id j = k"
  shows "tbl_get (jobs q) k = Some j \<Longrightarrow> tbl_get (jobs (snd (claimJob cfg now q))) k = Some j' \<Longrightarrow>
   retryCount j' \<le> retryCount j"
  using ids
  by (auto simp: claimJob_def Let_def tbl_get_putSync split: option.splits if_splits prod.splits)

lemma completeJob_retryCount:
  "tbl_get (jobs q) k = Some j \<Longrightarrow> tbl_get (jobs (snd (completeJob jobId body q))) k = Some j' \<Longrightarrow>
   retryCount j' \<le> retryCount j"
  by (auto simp: completeJob_def Let_def tbl_get_putSync split: option.splits if_splits)

lemma failJob_retryCount:
  "tbl_get (jobs q) k = Some j \<Longrightarrow> tbl_get (jobs (snd (failJob jobId q))) k = Some j' \<Longrightarrow>
   retryCount j' \<le> retryCount j"
  by (auto simp: failJob_def Let_def tbl_get_putSync split: option.splits if_splits)

lemma step_Post:
  assumes "map_of body ''name'' = Some (JStr n)" and "n \<noteq> []"
  shows "queue (step cfg s (Post ins body)) = snd (submitJob cfg (submitNow ins) n (queue s))"
    and "inflight (step cfg s (Post ins body)) = inflight s"
  using assms by (simp_all add: step_def postBird_def postBirdHandler_def Let_def asString_def)

lemma step_Tick:
  assumes "inflight s i = None"
  shows "queue (step cfg s (Tick i workerId now st)) = snd (claimJob cfg now (queue s))"
    and "inflight (step cfg s (Tick i workerId now st)) = (inflight s)(i := fst (claimJob cfg now (queue s)))"
  using assms
  by (simp_all add: step_def pollClaim_def Let_def split: prod.splits option.splits)

lemma step_Rejected:
  assumes "inflight s i = Some job"
  shows "queue (step cfg s (Settled i workerId (Rejected err) now random st)) =
           (if MAX_RETRIES cfg \<le> retryCount job then snd (failJob (job_id job) (queue s))
            else snd (retryJob cfg (job_id job) (computeBackoff cfg now random (retryCount job)) (queue s)))"
    and "inflight (step cfg s (Settled i workerId (Rejected err) now random st)) = (inflight s)(i := None)"
  using assms by (simp_all add: step_def pollSettle_def Let_def)

lemma exampleRun_queue:
  "queue (run testConfig exampleRun) = \<lparr>jobs = [(''a'', jobA)], queueIndex = []\<rparr>"
proof -
  define e1 where "e1 = Post (inputsAt 100) [(''name'', JStr ''A'')]"
  define e2 where "e2 = Tick 0 ''w-1'' 100 (stampAt 100 ''u1'')"
  define e3 where "e3 = Settled 0 ''w-1'' (Rejected ''boom'') 101 (7 / 10) (stampAt 101 ''u2'')"
  define e4 where "e4 = Tick 0 ''w-1'' 200 (stampAt 200 ''u3'')"
  define e5 where "e5 = Settled 0 ''w-1'' (Rejected ''boom'') 201 (7 / 10) (stampAt 201 ''u4'')"
  define s1 where "s1 = step testConfig initial e1"
  define s2 where "s2 = step testConfig s1 e2"
  define s3 where "s3 = step testConfig s2 e3"
  define s4 where "s4 = step testConfig s3 e4"
  define s5 where "s5 = step testConfig s4 e5"
  have r: "run testConfig exampleRun = s5"
    by (simp add: run_def exampleRun_def s5_def s4_def s3_def s2_def s1_def e1_def e2_def e3_def e4_def e5_def)
  have a0: "snd (submitJob testConfig 100 ''A'' emptyQueue) =
              \<lparr>jobs = [(''a'', jobA0)], queueIndex = [(''0000000000100-a'', ''a'')]\<rparr>"
    by code_simp
  have q1: "queue s1 = \<lparr>jobs = [(''a'', jobA0)], queueIndex = [(''0000000000100-a'', ''a'')]\<rparr>"
    and f1: "inflight s1 0 = None"
    unfolding s1_def e1_def
    by (simp_all add: step_Post [where n = "''A''"] initial_def inputsAt_def a0)
  have a1: "claimJob testConfig 100 \<lparr>jobs = [(''a'', jobA0)], queueIndex = [(''0000000000100-a'', ''a'')]\<rparr> =
              (Some (jobA0\<lparr>status := Processing\<rparr>),
               \<lparr>jobs = [(''a'', jobA0\<lparr>status := Processing\<rparr>)], queueIndex = []\<rparr>)"
    by code_simp
  have q2: "queue s2 = \<lparr>jobs = [(''a'', jobA0\<lparr>status := Processing\<rparr>)], queueIndex = []\<rparr>"
    and f2: "inflight s2 0 = Some (jobA0\<lparr>status := Processing\<rparr>)"
    unfolding s2_def e2_def by (simp_all add: step_Tick [OF f1] q1 a1)
  have a2: "snd (retryJob testConfig ''a'' 128 \<lparr>jobs = [(''a'', jobA0\<lparr>status := Processing\<rparr>)], queueIndex = []\<rparr>) =
              \<lparr>jobs = [(''a'', jobA\<lparr>status := Queued\<rparr>)], queueIndex = [(''0000000000128-a'', ''a'')]\<rparr>"
    by code_simp
  have b2: "computeBackoff testConfig 101 (7 / 10) 0 = 128"
    by (simp add: computeBackoff_def testConfig_def)
  have c2: "retryCount (jobA0\<lparr>status := Processing\<rparr>) = 0" "job_id (jobA0\<lparr>status := Processing\<rparr>) = ''a''"
    "MAX_RETRIES testConfig = 1"
    by (simp_all add: jobA0_def testConfig_def)
  have q3: "queue s3 = \<lparr>jobs = [(''a'', jobA\<lparr>status := Queued\<rparr>)], queueIndex = [(''0000000000128-a'', ''a'')]\<rparr>"
    and f3: "inflight s3 0 = None"
    unfolding s3_def e3_def
    by (simp_all add: step_Rejected [OF f2] q2 c2 b2 a2)
  have a3: "claimJob testConfig 200 \<lparr>jobs = [(''a'', jobA\<lparr>status := Queued\<rparr>)], queueIndex = [(''0000000000128-a'', ''a'')]\<rparr> =
              (Some (jobA\<lparr>status := Processing\<rparr>),
               \<lparr>jobs = [(''a'', jobA\<lparr>status := Processing\<rparr>)], queueIndex = []\<rparr>)"
    by code_simp
  have q4: "queue s4 = \<lparr>jobs = [(''a'', jobA\<lparr>status := Processing\<rparr>)], queueIndex = []\<rparr>"
    and f4: "inflight s4 0 = Some (jobA\<lparr>status := Processing\<rparr>)"
    unfolding s4_def e4_def by (simp_all add: step_Tick [OF f3] q3 a3)
  have a4: "snd (failJob ''a'' \<lparr>jobs = [(''a'', jobA\<lparr>status := Processing\<rparr>)], queueIndex = []\<rparr>) =
              \<lparr>jobs = [(''a'', jobA)], queueIndex = []\<rparr>"
    by code_simp
  have c4: "retryCount (jobA\<lparr>status := Processing\<rparr>) = 1" "job_id (jobA\<lparr>status := Processing\<rparr>) = ''a''"
    "MAX_RETRIES testConfig = 1"
    by (simp_all add: jobA_def testConfig_def)
  have q5: "queue s5 = \<lparr>jobs = [(''a'', jobA)], queueIndex = []\<rparr>"
    unfolding s5_def e5_def
    by (simp add: step_Rejected [OF f4] q4 c4 a4)
  show ?thesis using r q5 by simp
qed

text \<open>The tables of the queue stay well formed in every run.\<close>

lemma queue_ok_submitJob: "queue_ok q \<Longrightarrow> queue_ok (snd (submitJob cfg now n q))"
  by (simp add: queue_ok_def submitJob_def Let_def table_ok_putSync split: option.splits)

lemma queue_ok_claimJob: "queue_ok q \<Longrightarrow> queue_ok (snd (claimJob cfg now q))"
  by (simp add: queue_ok_def claimJob_def Let_def table_ok_putSync table_ok_removeSync
      split: option.splits prod.splits)

lemma queue_ok_completeJob: "queue_ok q \<Longrightarrow> queue_ok (snd (completeJob jobId body q))"
  by (simp add: queue_ok_def completeJob_def Let_def table_ok_putSync split: option.splits)

lemma queue_ok_failJob: "queue_ok q \<Longrightarrow> queue_ok (snd (failJob jobId q))"
  by (simp add: queue_ok_def failJob_def Let_def table_ok_putSync split: option.splits)

lemma queue_ok_retryJob: "queue_ok q \<Longrightarrow> queue_ok (snd (retryJob cfg jobId t q))"
  by (simp add: queue_ok_def retryJob_def Let_def table_ok_putSync split: option.splits)

lemma queue_ok_step: "queue_ok (queue s) \<Longrightarrow> queue_ok (queue (step cfg s e))"
proof (cases e)
  case (Start workerId st)
  then show "queue_ok (queue s) \<Longrightarrow> ?thesis" by (simp add: step_def)
next
  case (Post ins body)
  then show "queue_ok (queue s) \<Longrightarrow> ?thesis"
    using postBird_queue [of cfg ins body "queue s" "observer s"]
    by (auto simp: step_def Let_def queue_ok_submitJob)
next
  case (Tick i workerId now st)
  then show "queue_ok (queue s) \<Longrightarrow> ?thesis"
    using queue_ok_claimJob [of "queue s" cfg now]
    by (auto simp: step_def pollClaim_def Let_def split: option.splits prod.splits)
next
  case (Settled i workerId result now random st)
  then show "queue_ok (queue s) \<Longrightarrow> ?thesis"
    by (auto simp: step_def pollSettle_def Let_def queue_ok_completeJob queue_ok_failJob
        queue_ok_retryJob split: option.splits processed.splits)
qed

lemma queue_ok_run: "queue_ok (queue (run cfg es))"
proof (induction es rule: rev_induct)
  case Nil
  then show ?case by (simp add: run_def initial_def emptyQueue_def queue_ok_def table_ok_def)
next
  case (snoc e es)
  then show ?case using queue_ok_step [of "run cfg es" cfg e] by (simp add: run_def)
qed

text \<open>
  \<^bold>\<open>C4.\<close> In every state the system reaches from the empty store by \<open>POST /bird\<close> requests and
  worker ticks, every job record has \<open>retryCount \<le> MAX_RETRIES\<close>. When the processor fails
  a job whose \<open>retryCount\<close> is at least \<open>MAX_RETRIES\<close>, the worker calls \<open>failJob\<close>, not
  \<open>retryJob\<close>. \<open>retryJob\<close> returns the record with \<open>retryCount\<close> raised by exactly one, and in a
  reachable state no call of \<open>submitJob\<close>, \<open>claimJob\<close>, \<open>completeJob\<close> or \<open>failJob\<close> raises the
  \<open>retryCount\<close> of any record.
\<close>

theorem bounded_retries:
  "(\<forall>k j. tbl_get (jobs (queue (run cfg es))) k = Some j \<longrightarrow> retryCount j \<le> MAX_RETRIES cfg) \<and>
   (MAX_RETRIES cfg \<le> retryCount job \<longrightarrow>
      fst (pollSettle cfg workerId job (Rejected err) now random st (q, obs)) = snd (failJob (job_id job) q)) \<and>
   (tbl_get (jobs q) jobId = Some job \<longrightarrow>
      fst (retryJob cfg jobId nextAvailableAt q) =
        Some (job\<lparr>status := Queued, retryCount := retryCount job + 1,
                  availableForProcessingAt := nextAvailableAt\<rparr>)) \<and>
   (\<forall>k j j'. tbl_get (jobs (queue (run cfg es))) k = Some j \<longrightarrow>
      (tbl_get (jobs (snd (submitJob cfg now n (queue (run cfg es))))) k = Some j' \<longrightarrow>
         retryCount j' \<le> retryCount j) \<and>
      (tbl_get (jobs (snd (claimJob cfg now (queue (run cfg es))))) k = Some j' \<longrightarrow>
         retryCount j' \<le> retryCount j) \<and>
      (tbl_get (jobs (snd (completeJob jobId body (queue (run cfg es))))) k = Some j' \<longrightarrow>
         retryCount j' \<le> retryCount j) \<and>
      (tbl_get (jobs (snd (failJob jobId (queue (run cfg es))))) k = Some j' \<longrightarrow>
         retryCount j' \<le> retryCount j))"
proof (intro conjI allI impI)
  fix k j assume "tbl_get (jobs (queue (run cfg es))) k = Some j"
  then show "retryCount j \<le> MAX_RETRIES cfg" using inv_jobs [OF inv_run] by blast
next
  assume "MAX_RETRIES cfg \<le> retryCount job"
  then show "fst (pollSettle cfg workerId job (Rejected err) now random st (q, obs)) = snd (failJob (job_id job) q)"
    by (simp add: pollSettle_def)
next
  assume "tbl_get (jobs q) jobId = Some job"
  then show "fst (retryJob cfg jobId nextAvailableAt q) =
        Some (job\<lparr>status := Queued, retryCount := retryCount job + 1,
                  availableForProcessingAt := nextAvailableAt\<rparr>)"
    by (simp add: retryJob_def Let_def)
next
  fix k j j'
  assume "tbl_get (jobs (queue (run cfg es))) k = Some j"
    "tbl_get (jobs (snd (submitJob cfg now n (queue (run cfg es))))) k = Some j'"
  then show "retryCount j' \<le> retryCount j" by (rule submitJob_retryCount)
next
  fix k j j'
  assume "tbl_get (jobs (queue (run cfg es))) k = Some j"
    "tbl_get (jobs (snd (claimJob cfg now (queue (run cfg es))))) k = Some j'"
  then show "retryCount j' \<le> retryCount j"
    using inv_jobs [OF inv_run [of cfg es]] by (intro claimJob_retryCount [of "queue (run cfg es)"]) auto
next
  fix k j j'
  assume "tbl_get (jobs (queue (run cfg es))) k = Some j"
    "tbl_get (jobs (snd (completeJob jobId body (queue (run cfg es))))) k = Some j'"
  then show "retryCount j' \<le> retryCount j" by (rule completeJob_retryCount)
next
  fix k j j'
  assume "tbl_get (jobs (queue (run cfg es))) k = Some j"
    "tbl_get (jobs (snd (failJob jobId (queue (run cfg es))))) k = Some j'"
  then show "retryCount j' \<le> retryCount j" by (rule failJob_retryCount)
qed

theorem bounded_retries_witness:
  "tbl_get (jobs (queue (run testConfig exampleRun))) ''a'' = Some jobA \<and>
   retryCount jobA \<le> MAX_RETRIES testConfig \<and>
   MAX_RETRIES testConfig \<le> retryCount jobA \<and>
   fst (pollSettle testConfig ''w-1'' jobA (Rejected ''boom'') 201 (7 / 10) (stampAt 201 ''u4'')
          (queue1, emptyObserver)) = snd (failJob (job_id jobA) queue1) \<and>
   tbl_get (jobs queue1) ''brown-pelican'' = Some pelican \<and>
   fst (retryJob testConfig ''brown-pelican'' 128 queue1) =
     Some (pelican\<lparr>status := Queued, retryCount := 1, availableForProcessingAt := 128\<rparr>)"
proof -
  have h1: "tbl_get (jobs (queue (run testConfig exampleRun))) ''a'' = Some jobA"
    by (simp add: exampleRun_queue tbl_get_def)
  have h2: "MAX_RETRIES testConfig \<le> retryCount jobA" by (simp add: jobA_def testConfig_def)
  have h3: "tbl_get (jobs queue1) ''brown-pelican'' = Some pelican" by (simp add: queue1_def tbl_get_def)
  have r: "retryCount pelican + 1 = 1" by (simp add: pelican_def)
  note t = bounded_retries [where cfg = testConfig and es = exampleRun and job = jobA
      and workerId = "''w-1''" and err = "''boom''" and now = 201 and random = "7 / 10"
      and st = "stampAt 201 ''u4''" and q = queue1 and obs = emptyObserver]
  from t h1 have "retryCount jobA \<le> MAX_RETRIES testConfig" by blast
  moreover from t h2 have "fst (pollSettle testConfig ''w-1'' jobA (Rejected ''boom'') 201 (7 / 10) (stampAt 201 ''u4'')
          (queue1, emptyObserver)) = snd (failJob (job_id jobA) queue1)" by blast
  moreover from bounded_retries [where cfg = testConfig and q = queue1 and jobId = "''brown-pelican''"
      and job = pelican and nextAvailableAt = 128] h3
  have "fst (retryJob testConfig ''brown-pelican'' 128 queue1) =
     Some (pelican\<lparr>status := Queued, retryCount := retryCount pelican + 1, availableForProcessingAt := 128\<rparr>)"
    by blast
  ultimately show ?thesis using h1 h2 h3 r by simp
qed

section \<open>Exclusive claims\<close>

lemma inv_release_all: "inv cfg q fl \<Longrightarrow> inv cfg q (\<lambda>i. None)"
  unfolding inv_def by simp

lemma claimJob_twice_differ:
  assumes i: "inv cfg q fl"
    and c1: "claimJob cfg now q = (Some j1, q1)" and c2: "claimJob cfg now' q1 = (Some j2, q2)"
  shows "job_id j1 \<noteq> job_id j2"
proof
  assume eq: "job_id j1 = job_id j2"
  let ?f0 = "\<lambda>i::nat. None :: ResearchJob option"
  have "inv cfg q1 (?f0(0 := Some j1))"
    using inv_release_all [OF i] _ c1 by (rule inv_claimJob) simp
  then have "inv cfg q2 ((?f0(0 := Some j1))(1 := Some j2))"
    using _ c2 by (rule inv_claimJob) simp
  then have held: "inv cfg q2 ((?f0(0 := Some j1))(1 := Some j2))" .
  have "(0::nat) = 1"
    using eq by (intro inv_held_once [OF held, of 0 j1 1 j2]) simp_all
  then show False by simp
qed

lemma claimJob_transition:
  assumes i: "inv cfg q fl" and c: "claimJob cfg now q = (Some j, q')"
  shows "tbl_get (jobs q) (job_id j) = Some (j\<lparr>status := Queued\<rparr>)"
    and "status j = Processing"
    and "tbl_get (jobs q') (job_id j) = Some j"
    and "job_id j \<notin> snd ` set (queueIndex q')"
proof -
  from c obtain key v job where
    hd: "getRange_limit1 (queueIndex q) = Some (key, v)"
    and st: "tbl_get (jobs q) v = Some job" and j: "j = job\<lparr>status := Processing\<rparr>"
    by (rule claimJob_Some)
  from hd have mem: "(key, v) \<in> set (queueIndex q)"
    by (auto simp: getRange_limit1_def split: list.splits)
  have idv: "job_id job = v" using inv_jobs [OF i st] by simp
  have queued: "status job = Queued" using inv_index [OF i mem] st by simp
  show "tbl_get (jobs q) (job_id j) = Some (j\<lparr>status := Queued\<rparr>)"
    using st idv queued by (simp add: j)
  show "status j = Processing" by (simp add: j)
  let ?f0 = "\<lambda>i::nat. None :: ResearchJob option"
  have held: "inv cfg q' (?f0(0 := Some j))"
    using inv_release_all [OF i] _ c by (rule inv_claimJob) simp
  show "tbl_get (jobs q') (job_id j) = Some j"
    using held_facts(1) [OF held, of 0 j] by simp
  show "job_id j \<notin> snd ` set (queueIndex q')"
    using held_facts(3) [OF held, of 0 j] by simp
qed

text \<open>
  \<^bold>\<open>C9.\<close> Claims are steps of the running system, each \<open>transactionSync\<close> block being one step,
  so that claims that overlap in time are claims in some order, with any other steps in
  between. In every state the system reaches, no two workers hold jobs with the same id:
  while the job a claim returned is being processed, no other claim returns it. Two claims
  made one after the other return jobs with different ids. And the job a claim returns was
  queued before the claim and is processing after it, with no index entry left that names
  it.
\<close>

theorem claim_exclusive:
  "(i \<noteq> i' \<and> inflight (run cfg es) i = Some j \<and> inflight (run cfg es) i' = Some j' \<longrightarrow>
      job_id j \<noteq> job_id j') \<and>
   (claimJob cfg now (queue (run cfg es)) = (Some ja, qa) \<and> claimJob cfg now' qa = (Some jb, qb) \<longrightarrow>
      job_id ja \<noteq> job_id jb) \<and>
   (claimJob cfg now (queue (run cfg es)) = (Some ja, qa) \<longrightarrow>
      tbl_get (jobs (queue (run cfg es))) (job_id ja) = Some (ja\<lparr>status := Queued\<rparr>) \<and>
      status ja = Processing \<and>
      tbl_get (jobs qa) (job_id ja) = Some ja \<and>
      job_id ja \<notin> snd ` set (queueIndex qa))"
proof (intro conjI impI)
  assume "i \<noteq> i' \<and> inflight (run cfg es) i = Some j \<and> inflight (run cfg es) i' = Some j'"
  then show "job_id j \<noteq> job_id j'"
    using inv_held_once [OF inv_run [of cfg es], of i j i' j'] by blast
next
  assume "claimJob cfg now (queue (run cfg es)) = (Some ja, qa) \<and> claimJob cfg now' qa = (Some jb, qb)"
  then show "job_id ja \<noteq> job_id jb"
    using claimJob_twice_differ [OF inv_run [of cfg es]] by blast
next
  assume c: "claimJob cfg now (queue (run cfg es)) = (Some ja, qa)"
  show "tbl_get (jobs (queue (run cfg es))) (job_id ja) = Some (ja\<lparr>status := Queued\<rparr>)"
    and "status ja = Processing" and "tbl_get (jobs qa) (job_id ja) = Some ja"
    and "job_id ja \<notin> snd ` set (queueIndex qa)"
    using claimJob_transition [OF inv_run c] by blast+
qed

lemma twoWorkerRun_state:
  "queue (run testConfig (take 2 twoWorkerRun)) =
     \<lparr>jobs = [(''a'', jobA0), (''b'', jobB0)],
      queueIndex = [(''0000000000100-a'', ''a''), (''0000000000100-b'', ''b'')]\<rparr>"
  "inflight (run testConfig twoWorkerRun) 0 = Some (jobA0\<lparr>status := Processing\<rparr>)"
  "inflight (run testConfig twoWorkerRun) 1 = Some (jobB0\<lparr>status := Processing\<rparr>)"
proof -
  define e1 where "e1 = Post (inputsAt 100) [(''name'', JStr ''A'')]"
  define e2 where "e2 = Post (inputsAt 100) [(''name'', JStr ''B'')]"
  define e3 where "e3 = Tick 0 ''w-1'' 100 (stampAt 100 ''u1'')"
  define e4 where "e4 = Tick 1 ''w-2'' 100 (stampAt 100 ''u2'')"
  define s1 where "s1 = step testConfig initial e1"
  define s2 where "s2 = step testConfig s1 e2"
  define s3 where "s3 = step testConfig s2 e3"
  define s4 where "s4 = step testConfig s3 e4"
  have r2: "run testConfig (take 2 twoWorkerRun) = s2"
    by (simp add: run_def twoWorkerRun_def s2_def s1_def e1_def e2_def)
  have r4: "run testConfig twoWorkerRun = s4"
    by (simp add: run_def twoWorkerRun_def s4_def s3_def s2_def s1_def e1_def e2_def e3_def e4_def)
  have a0: "snd (submitJob testConfig 100 ''A'' emptyQueue) =
              \<lparr>jobs = [(''a'', jobA0)], queueIndex = [(''0000000000100-a'', ''a'')]\<rparr>"
    by code_simp
  have q1: "queue s1 = \<lparr>jobs = [(''a'', jobA0)], queueIndex = [(''0000000000100-a'', ''a'')]\<rparr>"
    and f1: "inflight s1 = (\<lambda>i. None)"
    unfolding s1_def e1_def
    by (simp_all add: step_Post [where n = "''A''"] initial_def inputsAt_def a0)
  have a1: "snd (submitJob testConfig 100 ''B'' \<lparr>jobs = [(''a'', jobA0)], queueIndex = [(''0000000000100-a'', ''a'')]\<rparr>) =
              \<lparr>jobs = [(''a'', jobA0), (''b'', jobB0)],
               queueIndex = [(''0000000000100-a'', ''a''), (''0000000000100-b'', ''b'')]\<rparr>"
    by code_simp
  have q2: "queue s2 = \<lparr>jobs = [(''a'', jobA0), (''b'', jobB0)],
               queueIndex = [(''0000000000100-a'', ''a''), (''0000000000100-b'', ''b'')]\<rparr>"
    and f2: "inflight s2 = (\<lambda>i. None)"
    unfolding s2_def e2_def
    by (simp_all add: step_Post [where n = "''B''"] inputsAt_def q1 f1 a1)
  have a2: "claimJob testConfig 100 \<lparr>jobs = [(''a'', jobA0), (''b'', jobB0)],
               queueIndex = [(''0000000000100-a'', ''a''), (''0000000000100-b'', ''b'')]\<rparr> =
            (Some (jobA0\<lparr>status := Processing\<rparr>),
             \<lparr>jobs = [(''a'', jobA0\<lparr>status := Processing\<rparr>), (''b'', jobB0)],
              queueIndex = [(''0000000000100-b'', ''b'')]\<rparr>)"
    by code_simp
  have i2: "inflight s2 0 = None" by (simp add: f2)
  have q3: "queue s3 = \<lparr>jobs = [(''a'', jobA0\<lparr>status := Processing\<rparr>), (''b'', jobB0)],
              queueIndex = [(''0000000000100-b'', ''b'')]\<rparr>"
    and f3: "inflight s3 = (\<lambda>i. None)(0 := Some (jobA0\<lparr>status := Processing\<rparr>))"
    unfolding s3_def e3_def by (simp_all add: step_Tick [OF i2] q2 a2 f2)
  have a3: "claimJob testConfig 100 \<lparr>jobs = [(''a'', jobA0\<lparr>status := Processing\<rparr>), (''b'', jobB0)],
              queueIndex = [(''0000000000100-b'', ''b'')]\<rparr> =
            (Some (jobB0\<lparr>status := Processing\<rparr>),
             \<lparr>jobs = [(''a'', jobA0\<lparr>status := Processing\<rparr>), (''b'', jobB0\<lparr>status := Processing\<rparr>)],
              queueIndex = []\<rparr>)"
    by code_simp
  have i3: "inflight s3 (Suc 0) = None" by (simp add: f3)
  have f4: "inflight s4 = ((\<lambda>i. None)(0 := Some (jobA0\<lparr>status := Processing\<rparr>)))(1 := Some (jobB0\<lparr>status := Processing\<rparr>))"
    unfolding s4_def e4_def by (simp add: step_Tick [OF i3] q3 a3 f3)
  show "queue (run testConfig (take 2 twoWorkerRun)) =
     \<lparr>jobs = [(''a'', jobA0), (''b'', jobB0)],
      queueIndex = [(''0000000000100-a'', ''a''), (''0000000000100-b'', ''b'')]\<rparr>"
    by (simp add: r2 q2)
  show "inflight (run testConfig twoWorkerRun) 0 = Some (jobA0\<lparr>status := Processing\<rparr>)"
    by (simp add: r4 f4)
  show "inflight (run testConfig twoWorkerRun) 1 = Some (jobB0\<lparr>status := Processing\<rparr>)"
    by (simp add: r4 f4)
qed

theorem claim_exclusive_witness:
  "(0::nat) \<noteq> 1 \<and>
   inflight (run testConfig twoWorkerRun) 0 = Some (jobA0\<lparr>status := Processing\<rparr>) \<and>
   inflight (run testConfig twoWorkerRun) 1 = Some (jobB0\<lparr>status := Processing\<rparr>) \<and>
   job_id (jobA0\<lparr>status := Processing\<rparr>) \<noteq> job_id (jobB0\<lparr>status := Processing\<rparr>) \<and>
   claimJob testConfig 100 (queue (run testConfig (take 2 twoWorkerRun))) =
     (Some (jobA0\<lparr>status := Processing\<rparr>),
      \<lparr>jobs = [(''a'', jobA0\<lparr>status := Processing\<rparr>), (''b'', jobB0)],
       queueIndex = [(''0000000000100-b'', ''b'')]\<rparr>) \<and>
   claimJob testConfig 100
      \<lparr>jobs = [(''a'', jobA0\<lparr>status := Processing\<rparr>), (''b'', jobB0)],
       queueIndex = [(''0000000000100-b'', ''b'')]\<rparr> =
     (Some (jobB0\<lparr>status := Processing\<rparr>),
      \<lparr>jobs = [(''a'', jobA0\<lparr>status := Processing\<rparr>), (''b'', jobB0\<lparr>status := Processing\<rparr>)],
       queueIndex = []\<rparr>) \<and>
   status (jobA0\<lparr>status := Processing\<rparr>) = Processing \<and>
   job_id (jobA0\<lparr>status := Processing\<rparr>) \<notin> snd ` set [(''0000000000100-b'', ''b'')]"
proof -
  let ?a = "jobA0\<lparr>status := Processing\<rparr>" and ?b = "jobB0\<lparr>status := Processing\<rparr>"
  let ?q1 = "\<lparr>jobs = [(''a'', ?a), (''b'', jobB0)], queueIndex = [(''0000000000100-b'', ''b'')]\<rparr>"
  let ?q2 = "\<lparr>jobs = [(''a'', ?a), (''b'', ?b)], queueIndex = []\<rparr>"
  have h0: "(0::nat) \<noteq> 1" by simp
  note h1 = twoWorkerRun_state(2) and h2 = twoWorkerRun_state(3)
  have c1: "claimJob testConfig 100 (queue (run testConfig (take 2 twoWorkerRun))) = (Some ?a, ?q1)"
    unfolding twoWorkerRun_state(1) by code_simp
  have c2: "claimJob testConfig 100 ?q1 = (Some ?b, ?q2)" by code_simp
  have t1: "job_id ?a \<noteq> job_id ?b"
    using claim_exclusive [where cfg = testConfig and es = twoWorkerRun and i = 0 and i' = 1
        and j = ?a and j' = ?b] h0 h1 h2 by blast
  have t3: "status ?a = Processing \<and> job_id ?a \<notin> snd ` set (queueIndex ?q1)"
    using claim_exclusive [where cfg = testConfig and es = "take 2 twoWorkerRun" and now = 100
        and ja = ?a and qa = ?q1] c1 by blast
  show ?thesis using h0 h1 h2 c1 c2 t1 t3 by simp
qed

section \<open>Eligibility\<close>

lemma toJobId_A: "toJobId ''A'' = ''a''"
  by code_simp

lemma retryRun_queue:
  "queue (run CONFIG retryRun) =
     \<lparr>jobs = [(''a'', retriedJob\<lparr>status := Queued\<rparr>)],
      queueIndex = [(indexKey CONFIG (3400000004127 / 2) ''a'', ''a'')]\<rparr>"
proof -
  define job0 where "job0 = \<lparr>job_id = ''a'', job_name = ''A'', createdAt = 1700000000000,
     availableForProcessingAt = 1700000000000, retryCount = 0, status = Queued, job_body = []\<rparr>"
  define e1 where "e1 = Post (inputsAt 1700000000000) [(''name'', JStr ''A'')]"
  define e2 where "e2 = Tick 0 ''w-1'' 1700000000000 (stampAt 1700000000000 ''u1'')"
  define e3 where "e3 = Settled 0 ''w-1'' (Rejected ''boom'') 1700000000001 (1 / 16) (stampAt 1700000000001 ''u2'')"
  define s1 where "s1 = step CONFIG initial e1"
  define s2 where "s2 = step CONFIG s1 e2"
  define s3 where "s3 = step CONFIG s2 e3"
  have r: "run CONFIG retryRun = s3"
    by (simp add: run_def retryRun_def s3_def s2_def s1_def e1_def e2_def e3_def)
  have w: "0 < TIMESTAMP_PAD_LENGTH CONFIG" "MAX_RETRIES CONFIG = 3" "BASE_DELAY_MS CONFIG = 1000"
    "\<lfloor>1700000000000 :: rat\<rfloor> < 10 ^ TIMESTAMP_PAD_LENGTH CONFIG"
    by (simp_all add: CONFIG_def)
  have q1: "queue s1 = \<lparr>jobs = [(''a'', job0)],
              queueIndex = [(indexKey CONFIG 1700000000000 ''a'', ''a'')]\<rparr>"
    and f1: "inflight s1 0 = None"
    unfolding s1_def e1_def
    by (simp_all add: step_Post [where n = "''A''"] initial_def inputsAt_def submitJob_def
        toJobId_A emptyQueue_def tbl_get_def job0_def Let_def)
  have a1: "claimJob CONFIG 1700000000000 \<lparr>jobs = [(''a'', job0)],
              queueIndex = [(indexKey CONFIG 1700000000000 ''a'', ''a'')]\<rparr> =
            (Some (job0\<lparr>status := Processing\<rparr>),
             \<lparr>jobs = [(''a'', job0\<lparr>status := Processing\<rparr>)], queueIndex = []\<rparr>)"
    using w by (intro claimJob_single) (simp_all add: job0_def)
  have q2: "queue s2 = \<lparr>jobs = [(''a'', job0\<lparr>status := Processing\<rparr>)], queueIndex = []\<rparr>"
    and f2: "inflight s2 0 = Some (job0\<lparr>status := Processing\<rparr>)"
    unfolding s2_def e2_def by (simp_all add: step_Tick [OF f1] q1 a1)
  have c2: "retryCount (job0\<lparr>status := Processing\<rparr>) = 0" "job_id (job0\<lparr>status := Processing\<rparr>) = ''a''"
    by (simp_all add: job0_def)
  have b2: "computeBackoff CONFIG 1700000000001 (1 / 16) 0 = 3400000004127 / 2"
    by (simp add: computeBackoff_def w)
  have a2: "snd (retryJob CONFIG ''a'' (3400000004127 / 2)
                  \<lparr>jobs = [(''a'', job0\<lparr>status := Processing\<rparr>)], queueIndex = []\<rparr>) =
            \<lparr>jobs = [(''a'', retriedJob\<lparr>status := Queued\<rparr>)],
             queueIndex = [(indexKey CONFIG (3400000004127 / 2) ''a'', ''a'')]\<rparr>"
    apply (simp add: retryJob_def tbl_get_def Let_def)
    apply (simp add: job0_def retriedJob_def)
    done
  have q3: "queue s3 = \<lparr>jobs = [(''a'', retriedJob\<lparr>status := Queued\<rparr>)],
              queueIndex = [(indexKey CONFIG (3400000004127 / 2) ''a'', ''a'')]\<rparr>"
    unfolding s3_def e3_def
    by (simp add: step_Rejected [OF f2] q2 c2 w b2 a2)
  show ?thesis using r q3 by simp
qed

lemma digit_literals:
  "digit 0 = CHR ''0''" "digit 1 = CHR ''1''" "digit 2 = CHR ''2''" "digit 3 = CHR ''3''"
  "digit 4 = CHR ''4''" "digit 5 = CHR ''5''" "digit 6 = CHR ''6''" "digit 7 = CHR ''7''"
  "digit 8 = CHR ''8''" "digit 9 = CHR ''9''" "digit (Suc 0) = CHR ''1''"
  by (rule of_char_eqI [where ?'a = nat], simp add: digit_def)+

lemma fractionDigits_half: "fractionDigits 20 (1 / 2) = ''5''"
  by code_simp

lemma retryRun_key: "indexKey CONFIG (3400000004127 / 2) ''a'' = ''1700000002063.5-a''"
proof -
  have d: "dec 1700000002063 = ''1700000002063''"
    by (simp add: dec.simps digit_literals)
  have f: "\<lfloor>3400000004127 / 2 :: rat\<rfloor> = 1700000002063" by (rule floor_unique) simp_all
  show ?thesis
    by (simp add: indexKey_def js_String_def Let_def f d fractionDigits_half padStart_def CONFIG_def)
qed

text \<open>
  \<^bold>\<open>C1.\<close> The claim is that \<open>claimJob\<close> never returns a job whose \<open>availableForProcessingAt\<close> is
  after the current time. The code breaks it on the worker's own retry path. A job is
  submitted at 1700000000000 and claimed; the processor fails, and \<open>computeBackoff\<close>, at
  1700000000001 with \<open>Math.random() = 1/16\<close>, gives 1700000002063.5; \<open>retryJob\<close> stores that
  number and the index key \<open>1700000002063.5-a\<close>. \<open>claimJob\<close> reads the first 13 characters of
  the key, which leaves the fraction out, and at 1700000002063 returns the job, half a
  millisecond before its \<open>availableForProcessingAt\<close>.
\<close>

theorem claimJob_returns_early:
  "queueIndex (queue (run CONFIG retryRun)) = [(''1700000002063.5-a'', ''a'')] \<and>
   fst (claimJob CONFIG 1700000002063 (queue (run CONFIG retryRun))) = Some retriedJob \<and>
   availableForProcessingAt retriedJob = 3400000004127 / 2 \<and>
   \<not> availableForProcessingAt retriedJob \<le> of_int 1700000002063"
proof -
  have w: "0 < TIMESTAMP_PAD_LENGTH CONFIG" "\<lfloor>3400000004127 / 2 :: rat\<rfloor> < 10 ^ TIMESTAMP_PAD_LENGTH CONFIG"
    by (simp_all add: CONFIG_def)
  have "claimJob CONFIG 1700000002063
          \<lparr>jobs = [(''a'', retriedJob\<lparr>status := Queued\<rparr>)],
           queueIndex = [(indexKey CONFIG (3400000004127 / 2) ''a'', ''a'')]\<rparr> =
        (Some (retriedJob\<lparr>status := Queued, status := Processing\<rparr>),
         \<lparr>jobs = [(''a'', retriedJob\<lparr>status := Queued, status := Processing\<rparr>)], queueIndex = []\<rparr>)"
    using w by (intro claimJob_single) (simp_all add: retriedJob_def)
  moreover have "retriedJob\<lparr>status := Queued, status := Processing\<rparr> = retriedJob"
    by (simp add: retriedJob_def)
  moreover have "queueIndex (queue (run CONFIG retryRun)) = [(''1700000002063.5-a'', ''a'')]"
    by (simp add: retryRun_queue retryRun_key)
  ultimately show ?thesis by (simp add: retryRun_queue retriedJob_def)
qed

text \<open>A second way to the same result, through the queue's operations but not through the
  worker: \<open>retryJob\<close> on a job that is still queued leaves its older index entry in place,
  and \<open>claimJob\<close> follows that entry.\<close>

lemma claimJob_stale_entry:
  "map_option availableForProcessingAt
     (fst (claimJob CONFIG 200 (snd (retryJob CONFIG ''a'' 500 (snd (submitJob CONFIG 100 ''A'' emptyQueue))))))
   = Some 500"
  by code_simp

end
